theory Spec2Isabelle
  imports Main
begin

section \<open>Python values used by the cost model\<close>

text \<open>
  The errors the methods of \<^verbatim>\<open>TeacherSchedulingProblem\<close> can raise: the explicit
  \<^verbatim>\<open>ValueError\<close> of \<^verbatim>\<open>get_cost\<close> (and of \<^verbatim>\<open>range\<close> with a zero step), a division or
  modulo by zero, a list index out of range and a missing dictionary key.
\<close>

datatype py_error = ValueError | ZeroDivisionError | IndexError | KeyError

text \<open>\<^verbatim>\<open>xs[i:j]\<close> for non-negative \<^verbatim>\<open>i\<close>, \<^verbatim>\<open>j\<close>: never raises, clips at the end of the list.\<close>

definition slice :: "'a list \<Rightarrow> nat \<Rightarrow> nat \<Rightarrow> 'a list" where
  "slice xs i j = take (j - i) (drop i xs)"

text \<open>\<^verbatim>\<open>xs[i]\<close> for a non-negative index.\<close>

definition list_get :: "'a list \<Rightarrow> nat \<Rightarrow> py_error + 'a" where
  "list_get xs i = (if i < length xs then Inr (xs ! i) else Inl IndexError)"

text \<open>\<^verbatim>\<open>xs * n\<close>: the list repeated \<^verbatim>\<open>n\<close> times.\<close>

definition list_times :: "'a list \<Rightarrow> nat \<Rightarrow> 'a list" where
  "list_times xs n = concat (replicate n xs)"

text \<open>\<^verbatim>\<open>range(start, stop, step)\<close> for non-negative arguments; a zero step raises.\<close>

definition range_step :: "nat \<Rightarrow> nat \<Rightarrow> nat \<Rightarrow> py_error + nat list" where
  "range_step start stop step =
     (if step = 0 then Inl ValueError
      else Inr (map (\<lambda>k. start + k * step) [0..<(stop - start + step - 1) div step]))"

text \<open>
  \<^verbatim>\<open>zip(*xss)\<close>: the tuples of the \<^verbatim>\<open>i\<close>-th elements, up to the length of the shortest
  list; no tuple at all when there is no list.
\<close>

fun min_length :: "'a list list \<Rightarrow> nat" where
  "min_length [] = 0"
| "min_length [xs] = length xs"
| "min_length (xs # xss) = min (length xs) (min_length xss)"

definition zip_star :: "'a list list \<Rightarrow> 'a list list" where
  "zip_star xss = map (\<lambda>i. map (\<lambda>xs. xs ! i) xss) [0..<min_length xss]"

text \<open>
  A \<^verbatim>\<open>dict\<close> keeps its keys in insertion order; assigning to a key that is already
  present replaces the value where the key stands.
\<close>

type_synonym 'v dict = "(string \<times> 'v) list"

fun dict_set :: "'v dict \<Rightarrow> string \<Rightarrow> 'v \<Rightarrow> 'v dict" where
  "dict_set [] k v = [(k, v)]"
| "dict_set ((k', v') # d) k v =
     (if k' = k then (k, v) # d else (k', v') # dict_set d k v)"

definition dict_values :: "'v dict \<Rightarrow> 'v list" where
  "dict_values d = map snd d"

definition dict_get :: "'v dict \<Rightarrow> string \<Rightarrow> py_error + 'v" where
  "dict_get d k = (case map_of d k of None \<Rightarrow> Inl KeyError | Some v \<Rightarrow> Inr v)"

section \<open>The scheduling problem\<close>

text \<open>
  The attributes that \<^verbatim>\<open>__init__\<close> sets. Rosters and headcounts are Python integers
  (\<^typ>\<open>int\<close>); \<^verbatim>\<open>weeks\<close>, \<^verbatim>\<open>shift_per_day\<close> and \<^verbatim>\<open>shifts_per_week\<close> are a positive literal,
  a \<^verbatim>\<open>len\<close> and a multiple of it, hence naturals.
\<close>

record problem =
  hard_constraint_penalty :: int
  teachers :: "string list"
  shift_preference :: "int list list"
  shift_min :: "int list"
  shift_max :: "int list"
  max_shifts_per_week :: int
  weeks :: nat
  shift_per_day :: nat
  shifts_per_week :: nat

definition TeacherSchedulingProblem :: "int \<Rightarrow> problem" where
  "TeacherSchedulingProblem penalty =
     \<lparr> hard_constraint_penalty = penalty,
       teachers = [''A'', ''B'', ''C'', ''D'', ''E'', ''F'', ''G'', ''H''],
       shift_preference =
         [[1, 0, 0], [1, 1, 0], [0, 0, 1], [0, 1, 0], [0, 0, 1], [1, 1, 1], [0, 1, 1], [1, 1, 1]],
       shift_min = [2, 2, 1],
       shift_max = [3, 4, 2],
       max_shifts_per_week = 5,
       weeks = 1,
       shift_per_day = length [2, 2, 1 :: int],
       shifts_per_week = 7 * length [2, 2, 1 :: int] \<rparr>"

text \<open>\<^verbatim>\<open>__len__\<close>\<close>

definition len :: "problem \<Rightarrow> nat" where
  "len p = length (teachers p) * shifts_per_week p * weeks p"

subsection \<open>\<^verbatim>\<open>get_teacher_shifts\<close>\<close>

fun teacher_shifts_loop ::
  "string list \<Rightarrow> int list \<Rightarrow> nat \<Rightarrow> nat \<Rightarrow> int list dict \<Rightarrow> int list dict" where
  "teacher_shifts_loop [] schedule shifts_per_teacher shift_index d = d"
| "teacher_shifts_loop (teacher # rest) schedule shifts_per_teacher shift_index d =
     teacher_shifts_loop rest schedule shifts_per_teacher (shift_index + shifts_per_teacher)
       (dict_set d teacher (slice schedule shift_index (shift_index + shifts_per_teacher)))"

definition get_teacher_shifts :: "problem \<Rightarrow> int list \<Rightarrow> py_error + int list dict" where
  "get_teacher_shifts p schedule =
     (if length (teachers p) = 0 then Inl ZeroDivisionError
      else let shifts_per_teacher = len p div length (teachers p)
           in Inr (teacher_shifts_loop (teachers p) schedule shifts_per_teacher 0 []))"

subsection \<open>\<^verbatim>\<open>count_consecutive_shift_violations\<close>\<close>

fun consecutive_pairs_loop :: "(int \<times> int) list \<Rightarrow> int \<Rightarrow> int" where
  "consecutive_pairs_loop [] violations = violations"
| "consecutive_pairs_loop ((shift1, shift2) # rest) violations =
     consecutive_pairs_loop rest
       (if shift1 = 1 \<and> shift2 = 1 then violations + 1 else violations)"

fun consecutive_teachers_loop :: "int list list \<Rightarrow> int \<Rightarrow> int" where
  "consecutive_teachers_loop [] violations = violations"
| "consecutive_teachers_loop (teacher_shifts # rest) violations =
     consecutive_teachers_loop rest
       (consecutive_pairs_loop (zip teacher_shifts (drop 1 teacher_shifts)) violations)"

definition count_consecutive_shift_violations :: "int list dict \<Rightarrow> int" where
  "count_consecutive_shift_violations teacher_shifts_dict =
     consecutive_teachers_loop (dict_values teacher_shifts_dict) 0"

subsection \<open>\<^verbatim>\<open>count_shifts_per_week_violations\<close>\<close>

fun weeks_loop :: "problem \<Rightarrow> int list \<Rightarrow> nat list \<Rightarrow> int list \<times> int \<Rightarrow> int list \<times> int" where
  "weeks_loop p teacher_shifts [] st = st"
| "weeks_loop p teacher_shifts (i # rest) (weekly_shifts_list, violations) =
     (let weekly_shifts = sum_list (slice teacher_shifts i (i + shifts_per_week p))
      in weeks_loop p teacher_shifts rest
           (weekly_shifts_list @ [weekly_shifts],
            if weekly_shifts > max_shifts_per_week p
            then violations + (weekly_shifts - max_shifts_per_week p) else violations))"

fun weeks_teachers_loop ::
  "problem \<Rightarrow> int list list \<Rightarrow> int list \<times> int \<Rightarrow> py_error + int list \<times> int" where
  "weeks_teachers_loop p [] st = Inr st"
| "weeks_teachers_loop p (teacher_shifts # rest) st =
     (case range_step 0 (weeks p * shifts_per_week p) (shifts_per_week p) of
        Inl e \<Rightarrow> Inl e
      | Inr starts \<Rightarrow> weeks_teachers_loop p rest (weeks_loop p teacher_shifts starts st))"

definition count_shifts_per_week_violations ::
  "problem \<Rightarrow> int list dict \<Rightarrow> py_error + int list \<times> int" where
  "count_shifts_per_week_violations p teacher_shifts_dict =
     weeks_teachers_loop p (dict_values teacher_shifts_dict) ([], 0)"

subsection \<open>\<^verbatim>\<open>count_teachers_per_shift_violations\<close>\<close>

fun per_shift_loop :: "problem \<Rightarrow> (nat \<times> int) list \<Rightarrow> int \<Rightarrow> py_error + int" where
  "per_shift_loop p [] violations = Inr violations"
| "per_shift_loop p ((shift_index, num_of_teachers) # rest) violations =
     (if shift_per_day p = 0 then Inl ZeroDivisionError
      else let daily_shift_index = shift_index mod shift_per_day p in
        case list_get (shift_max p) daily_shift_index of
          Inl e \<Rightarrow> Inl e
        | Inr smax \<Rightarrow>
            if num_of_teachers > smax
            then per_shift_loop p rest (violations + (num_of_teachers - smax))
            else (case list_get (shift_min p) daily_shift_index of
                    Inl e \<Rightarrow> Inl e
                  | Inr smin \<Rightarrow>
                      if num_of_teachers < smin
                      then per_shift_loop p rest (violations + (smin - num_of_teachers))
                      else per_shift_loop p rest violations))"

definition count_teachers_per_shift_violations ::
  "problem \<Rightarrow> int list dict \<Rightarrow> py_error + int list \<times> int" where
  "count_teachers_per_shift_violations p teacher_shifts_dict =
     (let total_per_shift_list = map sum_list (zip_star (dict_values teacher_shifts_dict))
      in case per_shift_loop p (enumerate 0 total_per_shift_list) 0 of
           Inl e \<Rightarrow> Inl e
         | Inr violations \<Rightarrow> Inr (total_per_shift_list, violations))"

subsection \<open>\<^verbatim>\<open>count_shift_preference_violations\<close>\<close>

fun preference_pairs_loop :: "(int \<times> int) list \<Rightarrow> int \<Rightarrow> int" where
  "preference_pairs_loop [] violations = violations"
| "preference_pairs_loop ((pref, shift) # rest) violations =
     preference_pairs_loop rest
       (if pref = 0 \<and> shift = 1 then violations + 1 else violations)"

fun preference_teachers_loop ::
  "problem \<Rightarrow> int list dict \<Rightarrow> (nat \<times> int list) list \<Rightarrow> int \<Rightarrow> py_error + int" where
  "preference_teachers_loop p d [] violations = Inr violations"
| "preference_teachers_loop p d ((teacher_index, pref) # rest) violations =
     (if shift_per_day p = 0 then Inl ZeroDivisionError
      else let preference = list_times pref (shifts_per_week p div shift_per_day p) in
        case list_get (teachers p) teacher_index of
          Inl e \<Rightarrow> Inl e
        | Inr teacher \<Rightarrow>
            (case dict_get d teacher of
               Inl e \<Rightarrow> Inl e
             | Inr shifts \<Rightarrow>
                 preference_teachers_loop p d rest
                   (preference_pairs_loop (zip preference shifts) violations)))"

definition count_shift_preference_violations ::
  "problem \<Rightarrow> int list dict \<Rightarrow> py_error + int" where
  "count_shift_preference_violations p teacher_shifts_dict =
     preference_teachers_loop p teacher_shifts_dict (enumerate 0 (shift_preference p)) 0"

subsection \<open>\<^verbatim>\<open>get_cost\<close>\<close>

definition get_cost :: "problem \<Rightarrow> int list \<Rightarrow> py_error + int" where
  "get_cost p schedule =
     (if length schedule \<noteq> len p then Inl ValueError
      else case get_teacher_shifts p schedule of
        Inl e \<Rightarrow> Inl e
      | Inr teacher_shifts_dict \<Rightarrow>
          (let consecutive_shift_violations =
                 count_consecutive_shift_violations teacher_shifts_dict
           in (case count_shifts_per_week_violations p teacher_shifts_dict of
                 Inl e \<Rightarrow> Inl e
               | Inr (weekly_shifts_list, shifts_per_week_violations) \<Rightarrow>
             (case count_teachers_per_shift_violations p teacher_shifts_dict of
                 Inl e \<Rightarrow> Inl e
               | Inr (total_per_shift_list, teachers_per_shift_violations) \<Rightarrow>
             (case count_shift_preference_violations p teacher_shifts_dict of
                 Inl e \<Rightarrow> Inl e
               | Inr shift_preference_violations \<Rightarrow>
                   (let hard_contstraint_violations =
                          consecutive_shift_violations + teachers_per_shift_violations
                            + shifts_per_week_violations;
                        soft_contstraint_violations = shift_preference_violations
                    in Inr (hard_constraint_penalty p * hard_contstraint_violations
                              + soft_contstraint_violations)))))))"

section \<open>Basic facts about the helpers and the loops\<close>

lemma slice_length: "length (slice xs i j) = min (j - i) (length xs - i)"
  by (simp add: slice_def)

lemma slice_nth: "k < j - i \<Longrightarrow> i + k < length xs \<Longrightarrow> slice xs i j ! k = xs ! (i + k)"
  by (simp add: slice_def)

lemma range_step_weeks: "0 < n \<Longrightarrow> range_step 0 (w * n) n = Inr (map (\<lambda>k. k * n) [0..<w])"
proof -
  assume n: "0 < n"
  then obtain m where m: "n = Suc m" by (cases n) auto
  have "w * n + n - 1 = m + w * n" by (simp add: m)
  moreover have "(m + w * n) div n = w + m div n" using n by (intro div_mult_self1) simp
  moreover have "m div n = 0" by (simp add: m)
  ultimately have "(w * n + n - 1) div n = w" by simp
  then show ?thesis using n by (simp add: range_step_def)
qed

lemma zip_drop1: "zip ts (drop 1 ts) = map (\<lambda>j. (ts ! j, ts ! Suc j)) [0..<length ts - 1]"
  by (rule nth_equalityI) auto

lemma consecutive_pairs_loop_count:
  "consecutive_pairs_loop xs v = v + int (length (filter (\<lambda>(a, b). a = 1 \<and> b = 1) xs))"
  by (induction xs v rule: consecutive_pairs_loop.induct) auto

lemma consecutive_teachers_loop_sum:
  "consecutive_teachers_loop tss v =
     v + (\<Sum>ts\<leftarrow>tss. int (length (filter (\<lambda>j. ts ! j = 1 \<and> ts ! Suc j = 1) [0..<length ts - 1])))"
proof (induction tss arbitrary: v)
  case Nil
  then show ?case by simp
next
  case (Cons ts tss)
  have "length (filter (\<lambda>(a, b). a = 1 \<and> b = 1) (zip ts (drop 1 ts)))
      = length (filter (\<lambda>j. ts ! j = 1 \<and> ts ! Suc j = 1) [0..<length ts - 1])"
    unfolding zip_drop1 filter_map by (simp add: comp_def)
  then show ?case using Cons.IH
    by (simp add: consecutive_pairs_loop_count)
qed

lemma preference_pairs_loop_count:
  "preference_pairs_loop xs v = v + int (length (filter (\<lambda>(a, b). a = 0 \<and> b = 1) xs))"
  by (induction xs v rule: preference_pairs_loop.induct) auto

lemma weeks_loop_sum:
  "weeks_loop p ts starts st =
     (fst st @ map (\<lambda>i. sum_list (slice ts i (i + shifts_per_week p))) starts,
      snd st + (\<Sum>i\<leftarrow>starts.
         (if sum_list (slice ts i (i + shifts_per_week p)) > max_shifts_per_week p
          then sum_list (slice ts i (i + shifts_per_week p)) - max_shifts_per_week p else 0)))"
proof (induction starts arbitrary: st)
  case Nil
  then show ?case by simp
next
  case (Cons i starts)
  obtain wl v where st: "st = (wl, v)" by (cases st)
  show ?case unfolding st by (simp add: Cons.IH Let_def)
qed

lemma weeks_teachers_loop_sum:
  assumes "0 < shifts_per_week p"
  shows "weeks_teachers_loop p tss st =
     Inr (fst st @ concat (map (\<lambda>ts. map (\<lambda>w. sum_list (slice ts (w * shifts_per_week p)
                                 (w * shifts_per_week p + shifts_per_week p))) [0..<weeks p]) tss),
          snd st + (\<Sum>ts\<leftarrow>tss. \<Sum>w\<leftarrow>[0..<weeks p].
             (if sum_list (slice ts (w * shifts_per_week p) (w * shifts_per_week p + shifts_per_week p))
                   > max_shifts_per_week p
              then sum_list (slice ts (w * shifts_per_week p) (w * shifts_per_week p + shifts_per_week p))
                   - max_shifts_per_week p else 0)))"
proof (induction tss arbitrary: st)
  case Nil
  then show ?case by simp
next
  case (Cons ts tss)
  show ?case
    by (simp add: range_step_weeks [OF assms] Cons.IH weeks_loop_sum comp_def)
qed

lemma per_shift_loop_sum:
  assumes "0 < shift_per_day p"
    and "shift_per_day p \<le> length (shift_max p)"
    and "shift_per_day p \<le> length (shift_min p)"
  shows "per_shift_loop p xs v =
     Inr (v + (\<Sum>(i, n)\<leftarrow>xs.
        (if n > shift_max p ! (i mod shift_per_day p) then n - shift_max p ! (i mod shift_per_day p)
         else if n < shift_min p ! (i mod shift_per_day p)
              then shift_min p ! (i mod shift_per_day p) - n else 0)))"
proof (induction xs arbitrary: v)
  case Nil
  then show ?case by simp
next
  case (Cons x xs)
  obtain i n where x: "x = (i, n)" by (cases x)
  have lt: "i mod shift_per_day p < shift_per_day p" using assms(1) by simp
  have a: "list_get (shift_max p) (i mod shift_per_day p) = Inr (shift_max p ! (i mod shift_per_day p))"
    using lt assms(2) by (simp add: list_get_def)
  have b: "list_get (shift_min p) (i mod shift_per_day p) = Inr (shift_min p ! (i mod shift_per_day p))"
    using lt assms(3) by (simp add: list_get_def)
  show ?case unfolding x using assms(1) by (simp add: a b Cons.IH Let_def)
qed

lemma sum_list_enumerate:
  "(\<Sum>(i, n)\<leftarrow>enumerate 0 xs. f i n) = (\<Sum>i\<leftarrow>[0..<length xs]. f i (xs ! i))"
proof -
  have "enumerate 0 xs = map (\<lambda>i. (i, xs ! i)) [0..<length xs]"
    by (rule nth_equalityI) (auto simp: nth_enumerate_eq)
  then show ?thesis by (simp add: comp_def)
qed

lemma min_length_same:
  "xss \<noteq> [] \<Longrightarrow> \<forall>xs\<in>set xss. length xs = n \<Longrightarrow> min_length xss = n"
  by (induction xss rule: min_length.induct) auto

lemma list_times_nth:
  "i < n * length xs \<Longrightarrow> list_times xs n ! i = xs ! (i mod length xs)"
proof (induction n arbitrary: i)
  case 0
  then show ?case by simp
next
  case (Suc n)
  show ?case
  proof (cases "i < length xs")
    case True
    then show ?thesis by (simp add: list_times_def nth_append)
  next
    case False
    then have "i - length xs < n * length xs" using Suc.prems by simp
    then have "list_times xs n ! (i - length xs) = xs ! ((i - length xs) mod length xs)"
      by (rule Suc.IH)
    moreover have "(i - length xs) mod length xs = i mod length xs"
      using False by (simp add: le_mod_geq)
    ultimately show ?thesis using False
      by (simp add: list_times_def nth_append)
  qed
qed

lemma list_times_length: "length (list_times xs n) = n * length xs"
  by (induction n) (simp_all add: list_times_def)

lemma dict_set_fresh: "k \<notin> fst ` set d \<Longrightarrow> dict_set d k v = d @ [(k, v)]"
  by (induction d) auto

lemma teacher_shifts_loop_distinct:
  "distinct ts \<Longrightarrow> set ts \<inter> fst ` set d = {} \<Longrightarrow>
   teacher_shifts_loop ts s n idx d =
     d @ map (\<lambda>k. (ts ! k, slice s (idx + k * n) (idx + k * n + n))) [0..<length ts]"
proof (induction ts arbitrary: idx d)
  case Nil
  then show ?case by simp
next
  case (Cons t ts)
  have fresh: "t \<notin> fst ` set d" using Cons.prems(2) by auto
  have disj: "set ts \<inter> fst ` set (d @ [(t, slice s idx (idx + n))]) = {}"
    using Cons.prems by auto
  have dist: "distinct ts" using Cons.prems(1) by simp
  have "[0..<length (t # ts)] = 0 # map Suc [0..<length ts]"
    by (simp add: upt_conv_Cons map_Suc_upt del: upt_Suc)
  then have "map (\<lambda>k. ((t # ts) ! k, slice s (idx + k * n) (idx + k * n + n))) [0..<length (t # ts)]
      = (t, slice s idx (idx + n))
        # map (\<lambda>k. (ts ! k, slice s (idx + n + k * n) (idx + n + k * n + n))) [0..<length ts]"
    by (simp add: comp_def add.assoc)
  then show ?case
    using Cons.IH [OF dist disj, of "idx + n"] by (simp add: dict_set_fresh [OF fresh])
qed

lemma concat_slices: "concat (map (\<lambda>k. slice s (k * n) (k * n + n)) [0..<w]) = take (w * n) s"
proof (induction w)
  case 0
  then show ?case by simp
next
  case (Suc w)
  have "take (w * n + n) s = take (w * n) s @ take n (drop (w * n) s)"
    by (rule take_add)
  then show ?case using Suc by (simp add: slice_def add.commute)
qed

lemma consecutive_Cons:
  "consecutive_pairs_loop (zip (x # ys) (drop 1 (x # ys))) v =
     consecutive_pairs_loop (zip ys (drop 1 ys)) v
       + (if ys \<noteq> [] \<and> x = 1 \<and> hd ys = 1 then 1 else 0)"
  by (cases ys) (auto simp: consecutive_pairs_loop_count)

lemma consecutive_append:
  "consecutive_pairs_loop (zip (xs @ ys) (drop 1 (xs @ ys))) 0 =
     consecutive_pairs_loop (zip xs (drop 1 xs)) 0 + consecutive_pairs_loop (zip ys (drop 1 ys)) 0
       + (if xs \<noteq> [] \<and> ys \<noteq> [] \<and> last xs = 1 \<and> hd ys = 1 then 1 else 0)"
proof (induction xs)
  case Nil
  then show ?case by simp
next
  case (Cons x xs)
  have "consecutive_pairs_loop (zip ((x # xs) @ ys) (drop 1 ((x # xs) @ ys))) 0 =
        consecutive_pairs_loop (zip (xs @ ys) (drop 1 (xs @ ys))) 0
          + (if xs @ ys \<noteq> [] \<and> x = 1 \<and> hd (xs @ ys) = 1 then 1 else 0)"
    using consecutive_Cons [of x "xs @ ys" 0] by simp
  moreover have "consecutive_pairs_loop (zip (x # xs) (drop 1 (x # xs))) 0 =
        consecutive_pairs_loop (zip xs (drop 1 xs)) 0
          + (if xs \<noteq> [] \<and> x = 1 \<and> hd xs = 1 then 1 else 0)"
    by (rule consecutive_Cons)
  ultimately show ?case using Cons.IH
    by (cases xs) auto
qed

lemma TSP_fields:
  "hard_constraint_penalty (TeacherSchedulingProblem pen) = pen"
  "teachers (TeacherSchedulingProblem pen) = [''A'', ''B'', ''C'', ''D'', ''E'', ''F'', ''G'', ''H'']"
  "shift_preference (TeacherSchedulingProblem pen) =
     [[1, 0, 0], [1, 1, 0], [0, 0, 1], [0, 1, 0], [0, 0, 1], [1, 1, 1], [0, 1, 1], [1, 1, 1]]"
  "shift_min (TeacherSchedulingProblem pen) = [2, 2, 1]"
  "shift_max (TeacherSchedulingProblem pen) = [3, 4, 2]"
  "max_shifts_per_week (TeacherSchedulingProblem pen) = 5"
  "weeks (TeacherSchedulingProblem pen) = 1"
  "shift_per_day (TeacherSchedulingProblem pen) = 3"
  "shifts_per_week (TeacherSchedulingProblem pen) = 21"
  by (simp_all add: TeacherSchedulingProblem_def)

lemma TSP_counts:
  "length (teachers (TeacherSchedulingProblem pen)) = 8"
  "distinct (teachers (TeacherSchedulingProblem pen))"
  "len (TeacherSchedulingProblem pen) = 168"
  by (simp_all add: TSP_fields len_def)

lemma TSP_decode:
  "get_teacher_shifts (TeacherSchedulingProblem pen) s =
     Inr (map (\<lambda>k. (teachers (TeacherSchedulingProblem pen) ! k, slice s (k * 21) (k * 21 + 21)))
            [0..<8])"
proof -
  have "teacher_shifts_loop (teachers (TeacherSchedulingProblem pen)) s 21 0 [] =
      [] @ map (\<lambda>k. (teachers (TeacherSchedulingProblem pen) ! k, slice s (0 + k * 21) (0 + k * 21 + 21)))
        [0..<length (teachers (TeacherSchedulingProblem pen))]"
    by (rule teacher_shifts_loop_distinct) (simp_all add: TSP_counts)
  then show ?thesis
    by (simp add: get_teacher_shifts_def TSP_counts)
qed

lemma TSP_slice:
  assumes "length s = 168" and "k < 8"
  shows "length (slice s (k * 21) (k * 21 + 21)) = 21"
    and "j < 21 \<Longrightarrow> slice s (k * 21) (k * 21 + 21) ! j = s ! (k * 21 + j)"
  using assms by (simp_all add: slice_def)

lemma dict_values_map: "dict_values (map (\<lambda>k. (f k, g k)) ks) = map g ks"
  by (simp add: dict_values_def comp_def)

lemma sum_list_map_cong:
  "(\<And>x. x \<in> set xs \<Longrightarrow> f x = g x) \<Longrightarrow> sum_list (map f xs) = sum_list (map g xs)"
  by (rule arg_cong [where f = sum_list]) simp

lemma length_filter_cong:
  "(\<And>x. x \<in> set xs \<Longrightarrow> P x = Q x) \<Longrightarrow> length (filter P xs) = length (filter Q xs)"
  by (rule arg_cong [where f = length]) (rule filter_cong, simp_all)


section \<open>Consecutive-shift violations\<close>

text \<open>
  C2. For every worker's flat shift sequence the consecutive-shift violation count is the
  number of adjacent index pairs \<open>(j, j+1)\<close> that are both 1: the count of a dictionary is
  the sum of these numbers over its values. A run of exactly three 1's adds 2 to what the
  parts before and after it contribute, a run of exactly two adds 1. For a roster of the
  problem's length the pairs range over the whole flat sequence of a worker (\<open>n\<close> slots,
  all days, so pairs across a day boundary count) and never span two workers.
\<close>

theorem consecutive_violations_adjacent_pairs:
  "count_consecutive_shift_violations d =
     (\<Sum>ts\<leftarrow>dict_values d.
        int (length (filter (\<lambda>j. ts ! j = 1 \<and> ts ! Suc j = 1) [0..<length ts - 1])))
   \<and> ((pre = [] \<or> last pre \<noteq> 1) \<and> (post = [] \<or> hd post \<noteq> 1) \<longrightarrow>
        count_consecutive_shift_violations [(t, pre @ [1, 1, 1] @ post)] =
          count_consecutive_shift_violations [(t, pre)] + 2
            + count_consecutive_shift_violations [(t, post)]
      \<and> count_consecutive_shift_violations [(t, pre @ [1, 1] @ post)] =
          count_consecutive_shift_violations [(t, pre)] + 1
            + count_consecutive_shift_violations [(t, post)])
   \<and> (p = TeacherSchedulingProblem penalty \<and> n = shifts_per_week p * weeks p
        \<and> length schedule = len p \<longrightarrow>
        (\<exists>sd. get_teacher_shifts p schedule = Inr sd \<and>
           count_consecutive_shift_violations sd =
             (\<Sum>k\<leftarrow>[0..<length (teachers p)].
                int (length (filter (\<lambda>j. schedule ! (k * n + j) = 1 \<and> schedule ! (k * n + Suc j) = 1)
                       [0..<n - 1])))))"
proof (intro conjI impI)
  show "count_consecutive_shift_violations d =
     (\<Sum>ts\<leftarrow>dict_values d.
        int (length (filter (\<lambda>j. ts ! j = 1 \<and> ts ! Suc j = 1) [0..<length ts - 1])))"
    by (simp add: count_consecutive_shift_violations_def consecutive_teachers_loop_sum)
next
  assume run: "(pre = [] \<or> last pre \<noteq> 1) \<and> (post = [] \<or> hd post \<noteq> 1)"
  have one: "\<And>ts. count_consecutive_shift_violations [(t, ts)] =
      consecutive_pairs_loop (zip ts (drop 1 ts)) 0"
    by (simp add: count_consecutive_shift_violations_def dict_values_def)
  have three: "consecutive_pairs_loop (zip [1, 1, 1] (drop 1 [1, 1, 1])) 0 = 2"
    and two: "consecutive_pairs_loop (zip [1, 1] (drop 1 [1, 1])) 0 = 1"
    by simp_all
  show "count_consecutive_shift_violations [(t, pre @ [1, 1, 1] @ post)] =
          count_consecutive_shift_violations [(t, pre)] + 2
            + count_consecutive_shift_violations [(t, post)]"
    unfolding one
    using run consecutive_append [of pre "[1, 1, 1] @ post"] consecutive_append [of "[1, 1, 1]" post] three
    by auto
  show "count_consecutive_shift_violations [(t, pre @ [1, 1] @ post)] =
          count_consecutive_shift_violations [(t, pre)] + 1
            + count_consecutive_shift_violations [(t, post)]"
    unfolding one
    using run consecutive_append [of pre "[1, 1] @ post"] consecutive_append [of "[1, 1]" post] two
    by auto
next
  assume a: "p = TeacherSchedulingProblem penalty \<and> n = shifts_per_week p * weeks p
        \<and> length schedule = len p"
  then have p: "p = TeacherSchedulingProblem penalty" and l: "length schedule = 168"
    and n: "n = 21"
    by (simp_all add: TSP_counts TSP_fields)
  let ?sd = "map (\<lambda>k. (teachers p ! k, slice schedule (k * 21) (k * 21 + 21))) [0..<8]"
  have dec: "get_teacher_shifts p schedule = Inr ?sd"
    unfolding p by (rule TSP_decode)
  have "count_consecutive_shift_violations ?sd =
      (\<Sum>k\<leftarrow>[0..<8]. int (length (filter
          (\<lambda>j. slice schedule (k * 21) (k * 21 + 21) ! j = 1
             \<and> slice schedule (k * 21) (k * 21 + 21) ! Suc j = 1)
          [0..<length (slice schedule (k * 21) (k * 21 + 21)) - 1])))"
    by (simp add: count_consecutive_shift_violations_def consecutive_teachers_loop_sum
        dict_values_map comp_def)
  also have "\<dots> = (\<Sum>k\<leftarrow>[0..<8].
      int (length (filter (\<lambda>j. schedule ! (k * 21 + j) = 1 \<and> schedule ! (k * 21 + Suc j) = 1)
             [0..<20])))"
  proof (rule sum_list_map_cong)
    fix k assume "k \<in> set [0..<8::nat]"
    then have k: "k < 8" by simp
    have "length (filter
          (\<lambda>j. slice schedule (k * 21) (k * 21 + 21) ! j = 1
             \<and> slice schedule (k * 21) (k * 21 + 21) ! Suc j = 1) [0..<20])
      = length (filter (\<lambda>j. schedule ! (k * 21 + j) = 1 \<and> schedule ! (k * 21 + Suc j) = 1)
             [0..<20])"
      by (rule length_filter_cong) (simp add: TSP_slice(2) [OF l k])
    then show "int (length (filter
          (\<lambda>j. slice schedule (k * 21) (k * 21 + 21) ! j = 1
             \<and> slice schedule (k * 21) (k * 21 + 21) ! Suc j = 1)
          [0..<length (slice schedule (k * 21) (k * 21 + 21)) - 1]))
      = int (length (filter (\<lambda>j. schedule ! (k * 21 + j) = 1 \<and> schedule ! (k * 21 + Suc j) = 1)
             [0..<20]))"
      by (simp add: TSP_slice(1) [OF l k])
  qed
  finally show "\<exists>sd. get_teacher_shifts p schedule = Inr sd \<and>
           count_consecutive_shift_violations sd =
             (\<Sum>k\<leftarrow>[0..<length (teachers p)].
                int (length (filter (\<lambda>j. schedule ! (k * n + j) = 1 \<and> schedule ! (k * n + Suc j) = 1)
                       [0..<n - 1])))"
    using dec by (simp add: p n TSP_counts)
qed

theorem consecutive_violations_adjacent_pairs_witness:
  "count_consecutive_shift_violations [(''A'', [0, 1, 1, 1, 0]), (''B'', [1, 1, 0, 1])] = 3
   \<and> count_consecutive_shift_violations [(''A'', [0] @ [1, 1, 1] @ [0])] = 2
   \<and> count_consecutive_shift_violations [(''A'', [0] @ [1, 1] @ [0])] = 1
   \<and> (\<exists>sd. get_teacher_shifts (TeacherSchedulingProblem 10) (replicate 168 1) = Inr sd
          \<and> count_consecutive_shift_violations sd = 160)"
proof -
  note t = consecutive_violations_adjacent_pairs
    [where d = "[(''A'', [0, 1, 1, 1, 0]), (''B'', [1, 1, 0, 1])]" and pre = "[0]" and post = "[0]"
       and t = "''A''" and p = "TeacherSchedulingProblem 10" and penalty = 10 and n = 21
       and schedule = "replicate 168 1"]
  have run: "([0::int] = [] \<or> last [0::int] \<noteq> 1) \<and> ([0::int] = [] \<or> hd [0::int] \<noteq> 1)"
    by simp
  have roster: "TeacherSchedulingProblem 10 = TeacherSchedulingProblem 10
      \<and> 21 = shifts_per_week (TeacherSchedulingProblem 10) * weeks (TeacherSchedulingProblem 10)
      \<and> length (replicate 168 (1::int)) = len (TeacherSchedulingProblem 10)"
    by (simp add: TSP_fields TSP_counts)
  have zero: "count_consecutive_shift_violations [(''A'', [0])] = 0"
    by (simp add: count_consecutive_shift_violations_def dict_values_def)
  have s1: "(\<Sum>ts\<leftarrow>dict_values [(''A'', [0, 1, 1, 1, 0]), (''B'', [1, 1, 0, 1::int])].
        int (length (filter (\<lambda>j. ts ! j = 1 \<and> ts ! Suc j = 1) [0..<length ts - 1]))) = 3"
    by code_simp
  have s2: "(\<Sum>k\<leftarrow>[0..<length (teachers (TeacherSchedulingProblem 10))].
        int (length (filter (\<lambda>j. replicate 168 (1::int) ! (k * 21 + j) = 1
                              \<and> replicate 168 (1::int) ! (k * 21 + Suc j) = 1) [0..<21 - 1]))) = 160"
    by code_simp
  from t have "count_consecutive_shift_violations [(''A'', [0, 1, 1, 1, 0]), (''B'', [1, 1, 0, 1])] = 3"
    unfolding s1 by (rule conjunct1)
  moreover from t run zero
  have "count_consecutive_shift_violations [(''A'', [0] @ [1, 1, 1] @ [0])] = 2
      \<and> count_consecutive_shift_violations [(''A'', [0] @ [1, 1] @ [0])] = 1"
    by simp
  moreover from t roster
  have "\<exists>sd. get_teacher_shifts (TeacherSchedulingProblem 10) (replicate 168 1) = Inr sd
          \<and> count_consecutive_shift_violations sd = 160"
    unfolding s2 by blast
  ultimately show ?thesis by blast
qed

section \<open>Roster encoding\<close>

lemma TSP_dict_get:
  assumes "k < 8"
  shows "dict_get (map (\<lambda>k. (teachers (TeacherSchedulingProblem pen) ! k, f k)) [0..<8])
           (teachers (TeacherSchedulingProblem pen) ! k) = Inr (f k)"
proof -
  let ?d = "map (\<lambda>k. (teachers (TeacherSchedulingProblem pen) ! k, f k)) [0..<8]"
  have fst: "map fst ?d = teachers (TeacherSchedulingProblem pen)"
    by (rule nth_equalityI) (simp_all add: TSP_counts)
  then have "distinct (map fst ?d)" by (simp add: TSP_counts)
  moreover have "(teachers (TeacherSchedulingProblem pen) ! k, f k) \<in> set ?d"
    using assms by (simp add: image_iff) (rule bexI [of _ k], simp_all)
  ultimately have "map_of ?d (teachers (TeacherSchedulingProblem pen) ! k) = Some (f k)"
    by (simp only: map_of_eq_Some_iff)
  then show ?thesis by (simp add: dict_get_def)
qed

text \<open>
  C8. \<^verbatim>\<open>__len__\<close> returns \<open>W * D * S\<close>: the number of teachers times the days of the period
  (seven per week) times the shifts per day. For a roster of that length,
  \<^verbatim>\<open>get_teacher_shifts\<close> returns a dictionary whose keys are the teachers in order and that
  maps teacher \<open>k\<close> to the roster's positions \<open>[k * n, (k+1) * n)\<close>, \<open>n = D * S\<close>; the values
  concatenated in order give the roster back.
\<close>

theorem get_teacher_shifts_worker_major:
  assumes "p = TeacherSchedulingProblem penalty"
    and "n = 7 * weeks p * shift_per_day p"
    and "length schedule = len p"
  shows "len p = length (teachers p) * (7 * weeks p) * shift_per_day p
    \<and> (\<exists>d. get_teacher_shifts p schedule = Inr d
          \<and> map fst d = teachers p
          \<and> (\<forall>k<length (teachers p).
                dict_get d (teachers p ! k) = Inr (slice schedule (k * n) ((k + 1) * n))
              \<and> dict_values d ! k = slice schedule (k * n) ((k + 1) * n)
              \<and> length (slice schedule (k * n) ((k + 1) * n)) = n
              \<and> (\<forall>j<n. slice schedule (k * n) ((k + 1) * n) ! j = schedule ! (k * n + j)))
          \<and> concat (dict_values d) = schedule)"
proof -
  have p: "p = TeacherSchedulingProblem penalty" by (rule assms(1))
  have n: "n = 21" using assms(2) by (simp add: p TSP_fields)
  have l: "length schedule = 168" using assms(3) by (simp add: p TSP_counts)
  let ?d = "map (\<lambda>k. (teachers p ! k, slice schedule (k * 21) (k * 21 + 21))) [0..<8]"
  have dec: "get_teacher_shifts p schedule = Inr ?d"
    unfolding p by (rule TSP_decode)
  have keys: "map fst ?d = teachers p"
    by (rule nth_equalityI) (simp_all add: p TSP_counts)
  have vals: "dict_values ?d = map (\<lambda>k. slice schedule (k * 21) (k * 21 + 21)) [0..<8]"
    by (rule dict_values_map)
  have each: "dict_get ?d (teachers p ! k) = Inr (slice schedule (k * n) ((k + 1) * n))
              \<and> dict_values ?d ! k = slice schedule (k * n) ((k + 1) * n)
              \<and> length (slice schedule (k * n) ((k + 1) * n)) = n
              \<and> (\<forall>j<n. slice schedule (k * n) ((k + 1) * n) ! j = schedule ! (k * n + j))"
    if "k < length (teachers p)" for k
  proof -
    have k: "k < 8" using that by (simp add: p TSP_counts)
    have e: "(k + 1) * 21 = k * 21 + 21" by simp
    show ?thesis
      unfolding n e vals
      using k TSP_dict_get [OF k, of penalty "\<lambda>k. slice schedule (k * 21) (k * 21 + 21)"]
        TSP_slice [OF l k]
      by (simp add: p)
  qed
  have "concat (dict_values ?d) = take (8 * 21) schedule"
    unfolding vals by (rule concat_slices)
  then have cat: "concat (dict_values ?d) = schedule" using l by simp
  have "len p = length (teachers p) * (7 * weeks p) * shift_per_day p"
    by (simp add: p TSP_counts TSP_fields)
  then show ?thesis using dec keys each cat by blast
qed

theorem get_teacher_shifts_worker_major_witness:
  "len (TeacherSchedulingProblem 10) = 8 * 7 * 3
   \<and> (\<exists>d. get_teacher_shifts (TeacherSchedulingProblem 10) (map int [0..<168]) = Inr d
          \<and> map fst d = [''A'', ''B'', ''C'', ''D'', ''E'', ''F'', ''G'', ''H'']
          \<and> dict_get d ''C'' = Inr (slice (map int [0..<168]) 42 63)
          \<and> slice (map int [0..<168]) 42 63 ! 5 = 47
          \<and> concat (dict_values d) = map int [0..<168])"
proof -
  have h1: "TeacherSchedulingProblem 10 = TeacherSchedulingProblem 10" by simp
  have h2: "21 = 7 * weeks (TeacherSchedulingProblem 10) * shift_per_day (TeacherSchedulingProblem 10)"
    by (simp add: TSP_fields)
  have h3: "length (map int [0..<168]) = len (TeacherSchedulingProblem 10)"
    by (simp add: TSP_counts)
  note t = get_teacher_shifts_worker_major [OF h1 h2 h3]
  from t obtain d where d: "get_teacher_shifts (TeacherSchedulingProblem 10) (map int [0..<168]) = Inr d"
    "map fst d = teachers (TeacherSchedulingProblem 10)"
    "\<forall>k<length (teachers (TeacherSchedulingProblem 10)).
        dict_get d (teachers (TeacherSchedulingProblem 10) ! k)
          = Inr (slice (map int [0..<168]) (k * 21) ((k + 1) * 21))
      \<and> dict_values d ! k = slice (map int [0..<168]) (k * 21) ((k + 1) * 21)
      \<and> length (slice (map int [0..<168]) (k * 21) ((k + 1) * 21)) = 21
      \<and> (\<forall>j<21. slice (map int [0..<168]) (k * 21) ((k + 1) * 21) ! j
            = map int [0..<168] ! (k * 21 + j))"
    "concat (dict_values d) = map int [0..<168]"
    by blast
  have "2 < length (teachers (TeacherSchedulingProblem 10))" by (simp add: TSP_counts)
  with d(3) have c: "dict_get d (teachers (TeacherSchedulingProblem 10) ! 2)
          = Inr (slice (map int [0..<168]) (2 * 21) ((2 + 1) * 21))"
    and e: "\<forall>j<21. slice (map int [0..<168]) (2 * 21) ((2 + 1) * 21) ! j
            = map int [0..<168] ! (2 * 21 + j)"
    by blast+
  from e have "slice (map int [0..<168]) (2 * 21) ((2 + 1) * 21) ! 5 = map int [0..<168] ! (2 * 21 + 5)"
    by simp
  then have f: "slice (map int [0..<168]) 42 63 ! 5 = 47" by simp
  from c have g: "dict_get d ''C'' = Inr (slice (map int [0..<168]) 42 63)"
    by (simp add: TSP_fields)
  from t have "len (TeacherSchedulingProblem 10) = 8 * 7 * 3" by (simp add: TSP_fields TSP_counts)
  with d(1,2,4) f g show ?thesis by (simp add: TSP_fields)
qed

section \<open>The counts of the configured problem\<close>

lemma TSP_weekly:
  "count_shifts_per_week_violations (TeacherSchedulingProblem pen) d =
     Inr (map (\<lambda>ts. sum_list (slice ts 0 21)) (dict_values d),
          \<Sum>ts\<leftarrow>dict_values d.
             (if sum_list (slice ts 0 21) > 5 then sum_list (slice ts 0 21) - 5 else 0))"
proof -
  have "0 < shifts_per_week (TeacherSchedulingProblem pen)" by (simp add: TSP_fields)
  then show ?thesis
    unfolding count_shifts_per_week_violations_def
    by (simp add: weeks_teachers_loop_sum TSP_fields comp_def cong: if_cong)
qed

lemma TSP_capacity:
  assumes "hl = map sum_list (zip_star (dict_values d))"
  shows "count_teachers_per_shift_violations (TeacherSchedulingProblem pen) d =
     Inr (hl, \<Sum>i\<leftarrow>[0..<length hl].
             (if hl ! i > [3, 4, 2] ! (i mod 3) then hl ! i - [3, 4, 2] ! (i mod 3)
              else if hl ! i < [2, 2, 1] ! (i mod 3) then [2, 2, 1] ! (i mod 3) - hl ! i else 0))"
proof -
  let ?p = "TeacherSchedulingProblem pen"
  have "per_shift_loop ?p xs v =
     Inr (v + (\<Sum>(i, n)\<leftarrow>xs.
        (if n > shift_max ?p ! (i mod shift_per_day ?p) then n - shift_max ?p ! (i mod shift_per_day ?p)
         else if n < shift_min ?p ! (i mod shift_per_day ?p)
              then shift_min ?p ! (i mod shift_per_day ?p) - n else 0)))" for xs v
    by (rule per_shift_loop_sum) (simp_all add: TSP_fields)
  then have "per_shift_loop ?p (enumerate 0 hl) 0 =
     Inr (\<Sum>i\<leftarrow>[0..<length hl].
             (if hl ! i > [3, 4, 2] ! (i mod 3) then hl ! i - [3, 4, 2] ! (i mod 3)
              else if hl ! i < [2, 2, 1] ! (i mod 3) then [2, 2, 1] ! (i mod 3) - hl ! i else 0))"
    by (simp add: sum_list_enumerate TSP_fields cong: if_cong)
  then show ?thesis
    unfolding count_teachers_per_shift_violations_def assms by (simp add: Let_def)
qed

lemma preference_teachers_loop_sum:
  assumes "0 < shift_per_day p"
    and "\<And>i pref. (i, pref) \<in> set xs \<Longrightarrow>
           i < length (teachers p) \<and> dict_get d (teachers p ! i) = Inr (f i)"
  shows "preference_teachers_loop p d xs v =
     Inr (v + (\<Sum>(i, pref)\<leftarrow>xs.
        int (length (filter (\<lambda>(a, b). a = 0 \<and> b = 1)
               (zip (list_times pref (shifts_per_week p div shift_per_day p)) (f i))))))"
  using assms(2)
proof (induction xs arbitrary: v)
  case Nil
  then show ?case by simp
next
  case (Cons x xs)
  obtain i pref where x: "x = (i, pref)" by (cases x)
  have a: "i < length (teachers p)" and b: "dict_get d (teachers p ! i) = Inr (f i)"
    using Cons.prems [of i pref] by (simp_all add: x)
  have rest: "\<And>i pref. (i, pref) \<in> set xs \<Longrightarrow>
           i < length (teachers p) \<and> dict_get d (teachers p ! i) = Inr (f i)"
    using Cons.prems by (meson list.set_intros(2))
  show ?case
    unfolding x using assms(1) a
    by (simp add: b list_get_def Cons.IH [OF rest] preference_pairs_loop_count Let_def)
qed

lemma zip_nth_map:
  "length xs = n \<Longrightarrow> length ys = n \<Longrightarrow> zip xs ys = map (\<lambda>i. (xs ! i, ys ! i)) [0..<n]"
  by (rule nth_equalityI) auto

lemma TSP_preference:
  assumes "length s = 168"
  shows "count_shift_preference_violations (TeacherSchedulingProblem pen)
           (map (\<lambda>k. (teachers (TeacherSchedulingProblem pen) ! k, slice s (k * 21) (k * 21 + 21)))
              [0..<8]) =
     Inr (\<Sum>k\<leftarrow>[0..<8]. int (length (filter
            (\<lambda>i. shift_preference (TeacherSchedulingProblem pen) ! k ! (i mod 3) = 0
                 \<and> s ! (k * 21 + i) = 1) [0..<21])))"
proof -
  let ?p = "TeacherSchedulingProblem pen"
  let ?f = "\<lambda>k. slice s (k * 21) (k * 21 + 21)"
  let ?d = "map (\<lambda>k. (teachers ?p ! k, ?f k)) [0..<8]"
  have lookups: "i < length (teachers ?p) \<and> dict_get ?d (teachers ?p ! i) = Inr (?f i)"
    if "(i, pref) \<in> set (enumerate 0 (shift_preference ?p))" for i pref
  proof -
    have "i < 8" using that by (auto simp: in_set_enumerate_eq TSP_fields)
    then show ?thesis using TSP_dict_get [of i pen ?f] by (simp add: TSP_counts)
  qed
  have "count_shift_preference_violations ?p ?d =
      Inr (0 + (\<Sum>(i, pref)\<leftarrow>enumerate 0 (shift_preference ?p).
        int (length (filter (\<lambda>(a, b). a = 0 \<and> b = 1)
               (zip (list_times pref (shifts_per_week ?p div shift_per_day ?p)) (?f i))))))"
    unfolding count_shift_preference_violations_def
    by (rule preference_teachers_loop_sum) (simp add: TSP_fields, rule lookups)
  also have "\<dots> = Inr (\<Sum>k\<leftarrow>[0..<8].
        int (length (filter (\<lambda>(a, b). a = 0 \<and> b = 1)
               (zip (list_times (shift_preference ?p ! k) 7) (?f k)))))"
  proof -
    have "length (shift_preference ?p) = 8" by (simp add: TSP_fields)
    then show ?thesis by (simp add: sum_list_enumerate) (simp add: TSP_fields)
  qed
  also have "(\<Sum>k\<leftarrow>[0..<8].
        int (length (filter (\<lambda>(a, b). a = 0 \<and> b = 1)
               (zip (list_times (shift_preference ?p ! k) 7) (?f k)))))
      = (\<Sum>k\<leftarrow>[0..<8]. int (length (filter
            (\<lambda>i. shift_preference ?p ! k ! (i mod 3) = 0 \<and> s ! (k * 21 + i) = 1) [0..<21])))"
  proof (rule sum_list_map_cong)
    fix k assume "k \<in> set [0..<8::nat]"
    then have k: "k < 8" by simp
    have len3: "length (shift_preference ?p ! k) = 3"
    proof -
      have "\<forall>pref\<in>set (shift_preference ?p). length pref = 3" by (simp add: TSP_fields)
      moreover have "shift_preference ?p ! k \<in> set (shift_preference ?p)"
        using k by (intro nth_mem) (simp add: TSP_fields)
      ultimately show ?thesis by blast
    qed
    have z: "zip (list_times (shift_preference ?p ! k) 7) (?f k)
        = map (\<lambda>i. (list_times (shift_preference ?p ! k) 7 ! i, ?f k ! i)) [0..<21]"
      by (rule zip_nth_map) (simp_all add: list_times_length len3 TSP_slice(1) [OF assms k])
    have "length (filter (\<lambda>(a, b). a = 0 \<and> b = 1)
               (zip (list_times (shift_preference ?p ! k) 7) (?f k)))
        = length (filter (\<lambda>i. list_times (shift_preference ?p ! k) 7 ! i = 0 \<and> ?f k ! i = 1) [0..<21])"
      unfolding z filter_map by (simp add: comp_def)
    also have "\<dots> = length (filter
            (\<lambda>i. shift_preference ?p ! k ! (i mod 3) = 0 \<and> s ! (k * 21 + i) = 1) [0..<21])"
      by (rule length_filter_cong)
        (simp add: list_times_nth len3 TSP_slice(2) [OF assms k])
    finally show "int (length (filter (\<lambda>(a, b). a = 0 \<and> b = 1)
               (zip (list_times (shift_preference ?p ! k) 7) (?f k))))
        = int (length (filter
            (\<lambda>i. shift_preference ?p ! k ! (i mod 3) = 0 \<and> s ! (k * 21 + i) = 1) [0..<21]))"
      by simp
  qed
  finally show ?thesis .
qed

lemma sum_list_nth: "sum_list xs = (\<Sum>j\<leftarrow>[0..<length xs]. xs ! j)"
  by (simp add: map_nth)

lemma TSP_weekly_roster:
  assumes "length s = 168"
  shows "count_shifts_per_week_violations (TeacherSchedulingProblem pen)
           (map (\<lambda>k. (teachers (TeacherSchedulingProblem pen) ! k, slice s (k * 21) (k * 21 + 21)))
              [0..<8]) =
     Inr (map (\<lambda>k. \<Sum>j\<leftarrow>[0..<21]. s ! (k * 21 + j)) [0..<8],
          \<Sum>k\<leftarrow>[0..<8]. (if (\<Sum>j\<leftarrow>[0..<21]. s ! (k * 21 + j)) > 5
                          then (\<Sum>j\<leftarrow>[0..<21]. s ! (k * 21 + j)) - 5 else 0))"
proof -
  have w: "sum_list (slice (slice s (k * 21) (k * 21 + 21)) 0 21) = (\<Sum>j\<leftarrow>[0..<21]. s ! (k * 21 + j))"
    if "k \<in> set [0..<8::nat]" for k
  proof -
    have k: "k < 8" using that by simp
    have e: "slice (slice s (k * 21) (k * 21 + 21)) 0 21 = slice s (k * 21) (k * 21 + 21)"
      by (simp add: slice_def)
    have "sum_list (slice s (k * 21) (k * 21 + 21)) = (\<Sum>j\<leftarrow>[0..<21]. slice s (k * 21) (k * 21 + 21) ! j)"
      using sum_list_nth [of "slice s (k * 21) (k * 21 + 21)"]
      by (simp only: TSP_slice(1) [OF assms k])
    also have "\<dots> = (\<Sum>j\<leftarrow>[0..<21]. s ! (k * 21 + j))"
      by (rule sum_list_map_cong) (simp add: TSP_slice(2) [OF assms k])
    finally show ?thesis unfolding e .
  qed
  have a: "map (\<lambda>k. sum_list (slice (slice s (k * 21) (k * 21 + 21)) 0 21)) [0..<8]
      = map (\<lambda>k. \<Sum>j\<leftarrow>[0..<21]. s ! (k * 21 + j)) [0..<8]"
    by (rule map_cong [OF refl]) (rule w)
  have b: "(\<Sum>k\<leftarrow>[0..<8]. (if sum_list (slice (slice s (k * 21) (k * 21 + 21)) 0 21) > 5
                          then sum_list (slice (slice s (k * 21) (k * 21 + 21)) 0 21) - 5 else 0))
      = (\<Sum>k\<leftarrow>[0..<8]. (if (\<Sum>j\<leftarrow>[0..<21]. s ! (k * 21 + j)) > 5
                          then (\<Sum>j\<leftarrow>[0..<21]. s ! (k * 21 + j)) - 5 else 0))"
    by (rule sum_list_map_cong) (simp only: w)
  show ?thesis
    unfolding TSP_weekly dict_values_map by (simp only: map_map comp_def a b)
qed

lemma TSP_headcounts:
  assumes "length s = 168"
  shows "map sum_list (zip_star (dict_values
           (map (\<lambda>k. (teachers (TeacherSchedulingProblem pen) ! k, slice s (k * 21) (k * 21 + 21)))
              [0..<8]))) =
         map (\<lambda>i. \<Sum>k\<leftarrow>[0..<8]. s ! (k * 21 + i)) [0..<21]"
proof -
  let ?vs = "map (\<lambda>k. slice s (k * 21) (k * 21 + 21)) [0..<8]"
  have "min_length ?vs = 21"
    by (rule min_length_same) (auto simp: TSP_slice(1) [OF assms])
  then have "map sum_list (zip_star ?vs)
      = map (\<lambda>i. \<Sum>k\<leftarrow>[0..<8]. slice s (k * 21) (k * 21 + 21) ! i) [0..<21]"
    by (simp add: zip_star_def comp_def)
  also have "\<dots> = map (\<lambda>i. \<Sum>k\<leftarrow>[0..<8]. s ! (k * 21 + i)) [0..<21]"
  proof (rule map_cong [OF refl])
    fix i assume "i \<in> set [0..<21::nat]"
    then have i: "i < 21" by simp
    show "(\<Sum>k\<leftarrow>[0..<8]. slice s (k * 21) (k * 21 + 21) ! i) = (\<Sum>k\<leftarrow>[0..<8]. s ! (k * 21 + i))"
      by (rule sum_list_map_cong) (simp add: TSP_slice(2) [OF assms _ i])
  qed
  finally show ?thesis by (simp only: dict_values_map)
qed

lemma TSP_capacity_roster:
  assumes "length s = 168"
    and "hl = map (\<lambda>i. \<Sum>k\<leftarrow>[0..<8]. s ! (k * 21 + i)) [0..<21]"
  shows "count_teachers_per_shift_violations (TeacherSchedulingProblem pen)
           (map (\<lambda>k. (teachers (TeacherSchedulingProblem pen) ! k, slice s (k * 21) (k * 21 + 21)))
              [0..<8]) =
     Inr (hl, \<Sum>i\<leftarrow>[0..<21].
             (if hl ! i > [3, 4, 2] ! (i mod 3) then hl ! i - [3, 4, 2] ! (i mod 3)
              else if hl ! i < [2, 2, 1] ! (i mod 3) then [2, 2, 1] ! (i mod 3) - hl ! i else 0))"
proof -
  have "length hl = 21" by (simp add: assms(2))
  then show ?thesis
    using TSP_capacity [of hl _ pen, OF trans [OF assms(2) TSP_headcounts [OF assms(1), symmetric]]]
    by simp
qed

lemma TSP_get_cost:
  assumes "length s = 168"
    and "d = map (\<lambda>k. (teachers (TeacherSchedulingProblem pen) ! k, slice s (k * 21) (k * 21 + 21)))
              [0..<8]"
    and "count_shifts_per_week_violations (TeacherSchedulingProblem pen) d = Inr (wl, w)"
    and "count_teachers_per_shift_violations (TeacherSchedulingProblem pen) d = Inr (hl, t)"
    and "count_shift_preference_violations (TeacherSchedulingProblem pen) d = Inr sp"
  shows "get_cost (TeacherSchedulingProblem pen) s =
           Inr (pen * (count_consecutive_shift_violations d + w + t) + sp)"
proof -
  have "get_teacher_shifts (TeacherSchedulingProblem pen) s = Inr d"
    unfolding assms(2) by (rule TSP_decode)
  then show ?thesis
    using assms(1)
    by (simp add: get_cost_def TSP_counts assms(3,4,5) Let_def TSP_fields add.commute add.left_commute)
qed

section \<open>The cost\<close>

text \<open>
  C1. For every roster whose length is \<^verbatim>\<open>__len__()\<close>, the decoding and the four counts
  succeed, and \<^verbatim>\<open>get_cost\<close> returns the hard-constraint penalty times the sum of the
  consecutive-shift, weekly-overload and capacity counts, plus the preference count, and
  nothing else.
\<close>

theorem get_cost_weighted_sum:
  assumes "p = TeacherSchedulingProblem penalty"
    and "length schedule = len p"
  shows "\<exists>d weekly_shifts_list weekly headcounts capacity preference.
      get_teacher_shifts p schedule = Inr d
    \<and> count_shifts_per_week_violations p d = Inr (weekly_shifts_list, weekly)
    \<and> count_teachers_per_shift_violations p d = Inr (headcounts, capacity)
    \<and> count_shift_preference_violations p d = Inr preference
    \<and> get_cost p schedule =
        Inr (penalty * (count_consecutive_shift_violations d + weekly + capacity) + preference)"
proof -
  have l: "length schedule = 168" using assms by (simp add: TSP_counts)
  let ?d = "map (\<lambda>k. (teachers (TeacherSchedulingProblem penalty) ! k,
                      slice schedule (k * 21) (k * 21 + 21))) [0..<8]"
  note dec = TSP_decode [of penalty schedule]
  note wk = TSP_weekly_roster [OF l, of penalty]
  note cap = TSP_capacity_roster [OF l refl, of penalty]
  note prefs = TSP_preference [OF l, of penalty]
  note cost = TSP_get_cost [OF l refl wk cap prefs]
  show ?thesis
    unfolding assms(1) using dec wk cap prefs cost by blast
qed

theorem get_cost_weighted_sum_witness:
  "length (replicate 168 (0::int)) = len (TeacherSchedulingProblem 10)
   \<and> (\<exists>d weekly_shifts_list weekly headcounts capacity preference.
      get_teacher_shifts (TeacherSchedulingProblem 10) (replicate 168 0) = Inr d
    \<and> count_shifts_per_week_violations (TeacherSchedulingProblem 10) d
        = Inr (weekly_shifts_list, weekly)
    \<and> count_teachers_per_shift_violations (TeacherSchedulingProblem 10) d
        = Inr (headcounts, capacity)
    \<and> count_shift_preference_violations (TeacherSchedulingProblem 10) d = Inr preference
    \<and> get_cost (TeacherSchedulingProblem 10) (replicate 168 0) =
        Inr (10 * (count_consecutive_shift_violations d + weekly + capacity) + preference))
   \<and> get_cost (TeacherSchedulingProblem 10) (replicate 168 0) = Inr 350"
proof -
  have h: "length (replicate 168 (0::int)) = len (TeacherSchedulingProblem 10)"
    by (simp add: TSP_counts)
  have v: "get_cost (TeacherSchedulingProblem 10) (replicate 168 0) = Inr 350"
    by code_simp
  from get_cost_weighted_sum [OF refl h] h v show ?thesis by blast
qed

text \<open>
  C6. \<^verbatim>\<open>get_cost\<close> fails exactly when the roster's length differs from \<^verbatim>\<open>__len__()\<close>: on a
  mismatch it raises \<^verbatim>\<open>ValueError\<close> whatever the problem's attributes are (the check comes
  before the decoding and every count), and for the configured problem a roster of the
  right length always gets a value.
\<close>

theorem get_cost_fails_iff_length_mismatch:
  "(length schedule \<noteq> len q \<longrightarrow> get_cost q schedule = Inl ValueError)
   \<and> (p = TeacherSchedulingProblem penalty \<longrightarrow>
        ((\<exists>e. get_cost p schedule = Inl e) \<longleftrightarrow> length schedule \<noteq> len p)
      \<and> ((\<exists>c. get_cost p schedule = Inr c) \<longleftrightarrow> length schedule = len p))"
proof (intro conjI impI)
  assume "length schedule \<noteq> len q"
  then show "get_cost q schedule = Inl ValueError" by (simp add: get_cost_def)
next
  assume p: "p = TeacherSchedulingProblem penalty"
  have bad: "get_cost p schedule = Inl ValueError" if "length schedule \<noteq> len p"
    using that by (simp add: get_cost_def)
  have good: "\<exists>c. get_cost p schedule = Inr c" if "length schedule = len p"
  proof -
    have l: "length schedule = 168" using that by (simp add: p TSP_counts)
    show ?thesis
      unfolding p
      using TSP_get_cost [OF l refl TSP_weekly_roster [OF l] TSP_capacity_roster [OF l refl]
          TSP_preference [OF l], of penalty]
      by blast
  qed
  show "(\<exists>e. get_cost p schedule = Inl e) \<longleftrightarrow> length schedule \<noteq> len p"
  proof (cases "length schedule = len p")
    case True
    then show ?thesis using good by force
  next
    case False
    then show ?thesis using bad by simp
  qed
  show "(\<exists>c. get_cost p schedule = Inr c) \<longleftrightarrow> length schedule = len p"
  proof (cases "length schedule = len p")
    case True
    then show ?thesis using good by simp
  next
    case False
    then show ?thesis using bad by simp
  qed
qed

theorem get_cost_fails_iff_length_mismatch_witness:
  "length (replicate 167 (0::int)) \<noteq> len (TeacherSchedulingProblem 10)
   \<and> get_cost (TeacherSchedulingProblem 10) (replicate 167 0) = Inl ValueError
   \<and> length (replicate 168 (0::int)) = len (TeacherSchedulingProblem 10)
   \<and> (\<exists>c. get_cost (TeacherSchedulingProblem 10) (replicate 168 0) = Inr c)
   \<and> \<not> (\<exists>e. get_cost (TeacherSchedulingProblem 10) (replicate 168 0) = Inl e)"
proof -
  have h1: "length (replicate 167 (0::int)) \<noteq> len (TeacherSchedulingProblem 10)"
    and h2: "length (replicate 168 (0::int)) = len (TeacherSchedulingProblem 10)"
    by (simp_all add: TSP_counts)
  note a = get_cost_fails_iff_length_mismatch
    [where q = "TeacherSchedulingProblem 10" and p = "TeacherSchedulingProblem 10"
       and penalty = 10 and schedule = "replicate 167 0"]
  note b = get_cost_fails_iff_length_mismatch
    [where q = "TeacherSchedulingProblem 10" and p = "TeacherSchedulingProblem 10"
       and penalty = 10 and schedule = "replicate 168 0"]
  from a h1 have "get_cost (TeacherSchedulingProblem 10) (replicate 167 0) = Inl ValueError"
    by blast
  moreover from b h2 have "\<exists>c. get_cost (TeacherSchedulingProblem 10) (replicate 168 0) = Inr c"
    and "\<not> (\<exists>e. get_cost (TeacherSchedulingProblem 10) (replicate 168 0) = Inl e)"
    by blast+
  ultimately show ?thesis using h1 h2 by blast
qed

section \<open>Preference violations\<close>

text \<open>
  C5. For a roster of the problem's length, the preference count is, summed over the
  workers \<open>k\<close>, the number of positions \<open>i\<close> of the period (\<open>n = D * S\<close> slots) where the
  worker's per-day pattern, repeated day after day (entry \<open>i mod S\<close>), is 0 and the roster
  schedules the worker (entry \<open>k * n + i\<close> is 1): a flat 1 for each such slot.
\<close>

theorem preference_violations_tiled_pattern:
  assumes "p = TeacherSchedulingProblem penalty"
    and "n = 7 * weeks p * shift_per_day p"
    and "length schedule = len p"
  shows "\<exists>d. get_teacher_shifts p schedule = Inr d
    \<and> count_shift_preference_violations p d =
        Inr (\<Sum>k\<leftarrow>[0..<length (teachers p)].
               int (length (filter
                 (\<lambda>i. shift_preference p ! k ! (i mod shift_per_day p) = 0
                      \<and> schedule ! (k * n + i) = 1) [0..<n])))"
proof -
  have l: "length schedule = 168" using assms by (simp add: TSP_counts)
  have n: "n = 21" using assms by (simp add: TSP_fields)
  show ?thesis
    using TSP_decode [of penalty schedule] TSP_preference [OF l, of penalty]
    by (simp add: assms(1) n TSP_counts TSP_fields(8))
qed

theorem preference_violations_tiled_pattern_witness:
  "length (replicate 168 (1::int)) = len (TeacherSchedulingProblem 10)
   \<and> (\<exists>d. get_teacher_shifts (TeacherSchedulingProblem 10) (replicate 168 1) = Inr d
          \<and> count_shift_preference_violations (TeacherSchedulingProblem 10) d = Inr 70)"
proof -
  have h2: "21 = 7 * weeks (TeacherSchedulingProblem 10) * shift_per_day (TeacherSchedulingProblem 10)"
    by (simp add: TSP_fields)
  have h3: "length (replicate 168 (1::int)) = len (TeacherSchedulingProblem 10)"
    by (simp add: TSP_counts)
  have v: "(\<Sum>k\<leftarrow>[0..<length (teachers (TeacherSchedulingProblem 10))].
               int (length (filter
                 (\<lambda>i. shift_preference (TeacherSchedulingProblem 10) ! k
                        ! (i mod shift_per_day (TeacherSchedulingProblem 10)) = 0
                      \<and> replicate 168 (1::int) ! (k * 21 + i) = 1) [0..<21]))) = 70"
    by code_simp
  from preference_violations_tiled_pattern [OF refl h2 h3] h3 show ?thesis
    unfolding v by blast
qed

section \<open>The empty roster\<close>

lemma sum_list_map_zero: "(\<And>x. x \<in> set xs \<Longrightarrow> f x = (0::int)) \<Longrightarrow> sum_list (map f xs) = 0"
  by (induction xs) simp_all

text \<open>
  C7. For the all-zero roster of length \<^verbatim>\<open>__len__()\<close> the consecutive-shift count and the
  preference count are 0, and the capacity count is the sum, over the \<open>D * S\<close> positions of
  the period, of the minimum headcount of the position's slot type: 7 times the sum of
  the three minimums, 35.
\<close>

theorem all_zero_roster_counts:
  assumes "p = TeacherSchedulingProblem penalty"
  shows "\<exists>d headcounts. get_teacher_shifts p (replicate (len p) 0) = Inr d
    \<and> count_consecutive_shift_violations d = 0
    \<and> count_shift_preference_violations p d = Inr 0
    \<and> count_teachers_per_shift_violations p d =
        Inr (headcounts,
             \<Sum>i\<leftarrow>[0..<7 * weeks p * shift_per_day p]. shift_min p ! (i mod shift_per_day p))
    \<and> (\<Sum>i\<leftarrow>[0..<7 * weeks p * shift_per_day p]. shift_min p ! (i mod shift_per_day p))
        = 7 * int (weeks p) * sum_list (shift_min p)
    \<and> 7 * int (weeks p) * sum_list (shift_min p) = 35"
proof -
  let ?s = "replicate 168 (0::int)"
  let ?q = "TeacherSchedulingProblem penalty"
  let ?d = "map (\<lambda>k. (teachers ?q ! k, slice ?s (k * 21) (k * 21 + 21))) [0..<8]"
  have l: "length ?s = 168" by simp
  have dec: "get_teacher_shifts ?q ?s = Inr ?d" by (rule TSP_decode)
  have "count_consecutive_shift_violations ?d =
      (\<Sum>k\<leftarrow>[0..<8]. int (length (filter
          (\<lambda>j. slice ?s (k * 21) (k * 21 + 21) ! j = 1 \<and> slice ?s (k * 21) (k * 21 + 21) ! Suc j = 1)
          [0..<length (slice ?s (k * 21) (k * 21 + 21)) - 1])))"
    by (simp only: count_consecutive_shift_violations_def consecutive_teachers_loop_sum
        dict_values_map map_map comp_def add_0)
  also have "\<dots> = 0"
  proof (rule sum_list_map_zero)
    fix k assume "k \<in> set [0..<8::nat]"
    then have k: "k < 8" by simp
    have "filter (\<lambda>j. slice ?s (k * 21) (k * 21 + 21) ! j = 1
                  \<and> slice ?s (k * 21) (k * 21 + 21) ! Suc j = 1) [0..<20] = []"
      using k by (auto simp: filter_empty_conv TSP_slice(2) [OF l k])
    then show "int (length (filter
          (\<lambda>j. slice ?s (k * 21) (k * 21 + 21) ! j = 1 \<and> slice ?s (k * 21) (k * 21 + 21) ! Suc j = 1)
          [0..<length (slice ?s (k * 21) (k * 21 + 21)) - 1])) = 0"
      by (simp only: TSP_slice(1) [OF l k]) simp
  qed
  finally have cons: "count_consecutive_shift_violations ?d = 0" .
  have "(\<Sum>k\<leftarrow>[0..<8]. int (length (filter
            (\<lambda>i. shift_preference ?q ! k ! (i mod 3) = 0 \<and> ?s ! (k * 21 + i) = 1) [0..<21]))) = 0"
  proof (rule sum_list_map_zero)
    fix k assume "k \<in> set [0..<8::nat]"
    then have k: "k < 8" by simp
    have "filter (\<lambda>i. shift_preference ?q ! k ! (i mod 3) = 0 \<and> ?s ! (k * 21 + i) = 1) [0..<21] = []"
      using k by (simp add: filter_empty_conv)
    then show "int (length (filter
            (\<lambda>i. shift_preference ?q ! k ! (i mod 3) = 0 \<and> ?s ! (k * 21 + i) = 1) [0..<21])) = 0"
      by simp
  qed
  then have pref: "count_shift_preference_violations ?q ?d = Inr 0"
    using TSP_preference [OF l, of penalty] by simp
  have hl: "map (\<lambda>i. \<Sum>k\<leftarrow>[0..<8]. ?s ! (k * 21 + i)) [0..<21] = replicate 21 0"
  proof -
    have "map (\<lambda>i. \<Sum>k\<leftarrow>[0..<8]. ?s ! (k * 21 + i)) [0..<21] = map (\<lambda>i. 0) [0..<21]"
    proof (rule map_cong [OF refl])
      fix i assume "i \<in> set [0..<21::nat]"
      then have i: "i < 21" by simp
      show "(\<Sum>k\<leftarrow>[0..<8]. ?s ! (k * 21 + i)) = 0"
        by (rule sum_list_map_zero) (use i in simp)
    qed
    then show ?thesis by (simp add: map_replicate_const)
  qed
  let ?z = "replicate 21 (0::int)"
  let ?mx = "[3, 4, 2 :: int]"
  let ?mn = "[2, 2, 1 :: int]"
  have total: "(\<Sum>i\<leftarrow>[0..<21].
             (if ?z ! i > ?mx ! (i mod 3) then ?z ! i - ?mx ! (i mod 3)
              else if ?z ! i < ?mn ! (i mod 3) then ?mn ! (i mod 3) - ?z ! i else 0))
      = (\<Sum>i\<leftarrow>[0..<21]. ?mn ! (i mod 3))"
  proof (rule sum_list_map_cong)
    fix i assume "i \<in> set [0..<21::nat]"
    then have i: "i < 21" by simp
    have "i mod 3 = 0 \<or> i mod 3 = 1 \<or> i mod 3 = 2" by arith
    then show "(if ?z ! i > ?mx ! (i mod 3) then ?z ! i - ?mx ! (i mod 3)
              else if ?z ! i < ?mn ! (i mod 3) then ?mn ! (i mod 3) - ?z ! i else 0)
        = ?mn ! (i mod 3)"
      using i by (elim disjE) simp_all
  qed
  have cap: "count_teachers_per_shift_violations ?q ?d =
      Inr (replicate 21 0, \<Sum>i\<leftarrow>[0..<21]. [2, 2, 1 :: int] ! (i mod 3))"
    using TSP_capacity_roster [OF l hl [symmetric], of penalty] by (simp only: total)
  have sum35: "(\<Sum>i\<leftarrow>[0..<21]. [2, 2, 1 :: int] ! (i mod 3)) = 35" by code_simp
  have len: "replicate (len ?q) (0::int) = ?s" by (simp add: TSP_counts)
  have e: "(\<Sum>i\<leftarrow>[0..<7 * weeks ?q * shift_per_day ?q]. shift_min ?q ! (i mod shift_per_day ?q)) = 35"
  proof -
    have "7 * weeks ?q * shift_per_day ?q = 21" by (simp add: TSP_fields)
    then show ?thesis using sum35 by (simp only: TSP_fields(4,8))
  qed
  have tot: "7 * int (weeks ?q) * sum_list (shift_min ?q) = 35"
    by (simp add: TSP_fields)
  show ?thesis
    unfolding assms len e tot
    using dec cons pref cap [unfolded sum35] by blast
qed

theorem all_zero_roster_counts_witness:
  "\<exists>d headcounts. get_teacher_shifts (TeacherSchedulingProblem 10) (replicate 168 0) = Inr d
    \<and> count_consecutive_shift_violations d = 0
    \<and> count_shift_preference_violations (TeacherSchedulingProblem 10) d = Inr 0
    \<and> count_teachers_per_shift_violations (TeacherSchedulingProblem 10) d = Inr (headcounts, 35)"
proof -
  let ?q = "TeacherSchedulingProblem 10"
  from all_zero_roster_counts [OF refl, of 10]
  obtain d headcounts where
    "get_teacher_shifts ?q (replicate (len ?q) 0) = Inr d"
    "count_consecutive_shift_violations d = 0"
    "count_shift_preference_violations ?q d = Inr 0"
    "count_teachers_per_shift_violations ?q d =
        Inr (headcounts,
             \<Sum>i\<leftarrow>[0..<7 * weeks ?q * shift_per_day ?q]. shift_min ?q ! (i mod shift_per_day ?q))"
    "(\<Sum>i\<leftarrow>[0..<7 * weeks ?q * shift_per_day ?q]. shift_min ?q ! (i mod shift_per_day ?q))
        = 7 * int (weeks ?q) * sum_list (shift_min ?q)"
    "7 * int (weeks ?q) * sum_list (shift_min ?q) = 35"
    by blast
  then have "get_teacher_shifts ?q (replicate 168 0) = Inr d
    \<and> count_consecutive_shift_violations d = 0
    \<and> count_shift_preference_violations ?q d = Inr 0
    \<and> count_teachers_per_shift_violations ?q d = Inr (headcounts, 35)"
    by (simp only: TSP_counts)
  then show ?thesis by blast
qed

section \<open>Weekly overload\<close>

lemma sum_list_binary:
  "set xs \<subseteq> {0, 1 :: int} \<Longrightarrow> sum_list xs = int (length (filter (\<lambda>x. x = 1) xs))"
  by (induction xs) auto

lemma slice_subset: "set (slice xs a b) \<subseteq> set xs"
  unfolding slice_def by (meson set_take_subset set_drop_subset subset_trans)

text \<open>
  C3. Each worker's sequence is cut into the windows \<open>[w * L, (w+1) * L)\<close>, one per week \<open>w\<close>,
  of length \<open>L = shifts_per_week\<close> (which is \<open>D * S / weeks\<close> for the configured problem); the
  entries of a window are summed (for a 0/1 sequence: its number of 1's) and every window
  whose sum exceeds \<open>max_shifts_per_week\<close> adds the excess. A worker with \<open>max + 3\<close> shifts
  in the period contributes exactly 3, one with at most \<open>max\<close> contributes 0.
\<close>

theorem shifts_per_week_violations_windows:
  "(0 < shifts_per_week q \<longrightarrow>
      count_shifts_per_week_violations q d =
        Inr (concat (map (\<lambda>ts. map (\<lambda>w. sum_list (slice ts (w * shifts_per_week q)
                                          (w * shifts_per_week q + shifts_per_week q)))
                                [0..<weeks q]) (dict_values d)),
             \<Sum>ts\<leftarrow>dict_values d. \<Sum>w\<leftarrow>[0..<weeks q].
               (if sum_list (slice ts (w * shifts_per_week q) (w * shifts_per_week q + shifts_per_week q))
                     > max_shifts_per_week q
                then sum_list (slice ts (w * shifts_per_week q) (w * shifts_per_week q + shifts_per_week q))
                     - max_shifts_per_week q
                else 0)))
   \<and> (set us \<subseteq> {0, 1} \<longrightarrow>
        sum_list (slice us a b) = int (length (filter (\<lambda>x. x = 1) (slice us a b))))
   \<and> (p = TeacherSchedulingProblem penalty \<longrightarrow>
        shifts_per_week p = 7 * weeks p * shift_per_day p div weeks p
      \<and> (sum_list (slice ts 0 (shifts_per_week p)) = max_shifts_per_week p + 3 \<longrightarrow>
           count_shifts_per_week_violations p [(t, ts)] = Inr ([max_shifts_per_week p + 3], 3))
      \<and> (sum_list (slice ts 0 (shifts_per_week p)) \<le> max_shifts_per_week p \<longrightarrow>
           count_shifts_per_week_violations p [(t, ts)]
             = Inr ([sum_list (slice ts 0 (shifts_per_week p))], 0)))"
proof (intro conjI impI)
  assume "0 < shifts_per_week q"
  then show "count_shifts_per_week_violations q d =
        Inr (concat (map (\<lambda>ts. map (\<lambda>w. sum_list (slice ts (w * shifts_per_week q)
                                          (w * shifts_per_week q + shifts_per_week q)))
                                [0..<weeks q]) (dict_values d)),
             \<Sum>ts\<leftarrow>dict_values d. \<Sum>w\<leftarrow>[0..<weeks q].
               (if sum_list (slice ts (w * shifts_per_week q) (w * shifts_per_week q + shifts_per_week q))
                     > max_shifts_per_week q
                then sum_list (slice ts (w * shifts_per_week q) (w * shifts_per_week q + shifts_per_week q))
                     - max_shifts_per_week q
                else 0))"
    unfolding count_shifts_per_week_violations_def
    by (simp only: weeks_teachers_loop_sum fst_conv snd_conv append_Nil add_0)
next
  assume "set us \<subseteq> {0, 1}"
  then have "set (slice us a b) \<subseteq> {0, 1}" using slice_subset [of us a b] by blast
  then show "sum_list (slice us a b) = int (length (filter (\<lambda>x. x = 1) (slice us a b)))"
    by (rule sum_list_binary)
next
  assume "p = TeacherSchedulingProblem penalty"
  then show "shifts_per_week p = 7 * weeks p * shift_per_day p div weeks p"
    by (simp add: TSP_fields)
next
  assume p: "p = TeacherSchedulingProblem penalty"
    and s: "sum_list (slice ts 0 (shifts_per_week p)) = max_shifts_per_week p + 3"
  then have "sum_list (slice ts 0 21) = 8" by (simp add: TSP_fields)
  then show "count_shifts_per_week_violations p [(t, ts)] = Inr ([max_shifts_per_week p + 3], 3)"
    unfolding p TSP_weekly by (simp add: dict_values_def TSP_fields)
next
  assume p: "p = TeacherSchedulingProblem penalty"
    and s: "sum_list (slice ts 0 (shifts_per_week p)) \<le> max_shifts_per_week p"
  then have "sum_list (slice ts 0 21) \<le> 5" by (simp add: TSP_fields)
  then show "count_shifts_per_week_violations p [(t, ts)]
             = Inr ([sum_list (slice ts 0 (shifts_per_week p))], 0)"
    unfolding p TSP_weekly by (simp add: dict_values_def TSP_fields)
qed

theorem shifts_per_week_violations_windows_witness:
  "count_shifts_per_week_violations (TeacherSchedulingProblem 10)
       [(''A'', replicate 8 1 @ replicate 13 0), (''B'', replicate 5 1 @ replicate 16 0)]
     = Inr ([8, 5], 3)
   \<and> sum_list (slice (replicate 8 1 @ replicate 13 0) 0 21) = (8::int)
   \<and> count_shifts_per_week_violations (TeacherSchedulingProblem 10)
       [(''A'', replicate 8 1 @ replicate 13 0)] = Inr ([8], 3)
   \<and> count_shifts_per_week_violations (TeacherSchedulingProblem 10)
       [(''B'', replicate 5 1 @ replicate 16 0)] = Inr ([5], 0)"
proof -
  let ?q = "TeacherSchedulingProblem 10"
  let ?a = "replicate 8 1 @ replicate 13 (0::int)"
  let ?b = "replicate 5 1 @ replicate 16 (0::int)"
  note t1 = shifts_per_week_violations_windows
    [where q = ?q and d = "[(''A'', ?a), (''B'', ?b)]" and us = ?a and a = 0 and b = 21
       and p = ?q and penalty = 10 and ts = ?a and t = "''A''"]
  note t2 = shifts_per_week_violations_windows
    [where q = ?q and d = "[(''A'', ?a), (''B'', ?b)]" and us = ?a and a = 0 and b = 21
       and p = ?q and penalty = 10 and ts = ?b and t = "''B''"]
  have pos: "0 < shifts_per_week ?q" by (simp add: TSP_fields)
  have bin: "set ?a \<subseteq> {0, 1}" by auto
  have ones: "int (length (filter (\<lambda>x. x = 1) (slice ?a 0 21))) = 8" by code_simp
  have sa: "sum_list (slice ?a 0 (shifts_per_week ?q)) = max_shifts_per_week ?q + 3"
    by code_simp
  have sb: "sum_list (slice ?b 0 (shifts_per_week ?q)) \<le> max_shifts_per_week ?q"
    by code_simp
  have vb: "sum_list (slice ?b 0 (shifts_per_week ?q)) = 5"
    by code_simp
  from t1 pos have "count_shifts_per_week_violations ?q [(''A'', ?a), (''B'', ?b)] =
        Inr (concat (map (\<lambda>ts. map (\<lambda>w. sum_list (slice ts (w * shifts_per_week ?q)
                                          (w * shifts_per_week ?q + shifts_per_week ?q)))
                                [0..<weeks ?q]) (dict_values [(''A'', ?a), (''B'', ?b)])),
             \<Sum>ts\<leftarrow>dict_values [(''A'', ?a), (''B'', ?b)]. \<Sum>w\<leftarrow>[0..<weeks ?q].
               (if sum_list (slice ts (w * shifts_per_week ?q) (w * shifts_per_week ?q + shifts_per_week ?q))
                     > max_shifts_per_week ?q
                then sum_list (slice ts (w * shifts_per_week ?q) (w * shifts_per_week ?q + shifts_per_week ?q))
                     - max_shifts_per_week ?q
                else 0))"
    by blast
  then have c1: "count_shifts_per_week_violations ?q [(''A'', ?a), (''B'', ?b)] = Inr ([8, 5], 3)"
    by (simp add: TSP_fields dict_values_def slice_def sum_list_replicate)
  from t1 bin have "sum_list (slice ?a 0 21) = int (length (filter (\<lambda>x. x = 1) (slice ?a 0 21)))"
    by blast
  then have c2: "sum_list (slice ?a 0 21) = 8" by (simp only: ones)
  from t1 sa have c3: "count_shifts_per_week_violations ?q [(''A'', ?a)] = Inr ([8], 3)"
    by (simp add: TSP_fields)
  from t2 sb have "count_shifts_per_week_violations ?q [(''B'', ?b)]
      = Inr ([sum_list (slice ?b 0 (shifts_per_week ?q))], 0)"
    by blast
  then have c4: "count_shifts_per_week_violations ?q [(''B'', ?b)] = Inr ([5], 0)"
    by (simp only: vb)
  from c1 c2 c3 c4 show ?thesis by blast
qed

section \<open>Capacity violations\<close>

text \<open>
  C4. The headcount of a flat position is the sum, over all workers, of their entries at
  that position (for a dictionary: the sums of the tuples of \<^verbatim>\<open>zip(*values)\<close>; for a roster
  of the problem's length: the sum over the workers \<open>k\<close> of entry \<open>k * n + i\<close>). Position \<open>i\<close>
  has slot type \<open>i mod S\<close>; it adds \<open>count - max\<close> when the headcount exceeds the slot
  type's maximum, otherwise \<open>min - count\<close> when it is below the minimum, otherwise nothing.
\<close>

theorem teachers_per_shift_violations_headcounts:
  "(0 < shift_per_day q \<and> shift_per_day q \<le> length (shift_max q)
      \<and> shift_per_day q \<le> length (shift_min q)
      \<and> totals = map sum_list (zip_star (dict_values d)) \<longrightarrow>
      count_teachers_per_shift_violations q d =
        Inr (totals,
             \<Sum>i\<leftarrow>[0..<length totals].
               (if totals ! i > shift_max q ! (i mod shift_per_day q)
                then totals ! i - shift_max q ! (i mod shift_per_day q)
                else if totals ! i < shift_min q ! (i mod shift_per_day q)
                then shift_min q ! (i mod shift_per_day q) - totals ! i
                else 0)))
   \<and> (p = TeacherSchedulingProblem penalty \<and> n = 7 * weeks p * shift_per_day p
      \<and> length schedule = len p
      \<and> headcounts = map (\<lambda>i. \<Sum>k\<leftarrow>[0..<length (teachers p)]. schedule ! (k * n + i)) [0..<n] \<longrightarrow>
      (\<exists>sd. get_teacher_shifts p schedule = Inr sd
         \<and> count_teachers_per_shift_violations p sd =
             Inr (headcounts,
                  \<Sum>i\<leftarrow>[0..<n].
                    (if headcounts ! i > shift_max p ! (i mod shift_per_day p)
                     then headcounts ! i - shift_max p ! (i mod shift_per_day p)
                     else if headcounts ! i < shift_min p ! (i mod shift_per_day p)
                     then shift_min p ! (i mod shift_per_day p) - headcounts ! i
                     else 0))))"
proof (intro conjI impI)
  assume a: "0 < shift_per_day q \<and> shift_per_day q \<le> length (shift_max q)
      \<and> shift_per_day q \<le> length (shift_min q)
      \<and> totals = map sum_list (zip_star (dict_values d))"
  then have "per_shift_loop q xs v =
     Inr (v + (\<Sum>(i, n)\<leftarrow>xs.
        (if n > shift_max q ! (i mod shift_per_day q) then n - shift_max q ! (i mod shift_per_day q)
         else if n < shift_min q ! (i mod shift_per_day q)
              then shift_min q ! (i mod shift_per_day q) - n else 0)))" for xs v
    by (intro per_shift_loop_sum) simp_all
  then have "per_shift_loop q (enumerate 0 totals) 0 =
     Inr (\<Sum>i\<leftarrow>[0..<length totals].
               (if totals ! i > shift_max q ! (i mod shift_per_day q)
                then totals ! i - shift_max q ! (i mod shift_per_day q)
                else if totals ! i < shift_min q ! (i mod shift_per_day q)
                then shift_min q ! (i mod shift_per_day q) - totals ! i
                else 0))"
    by (simp add: sum_list_enumerate)
  moreover have "map sum_list (zip_star (dict_values d)) = totals" using a by simp
  ultimately show "count_teachers_per_shift_violations q d =
        Inr (totals,
             \<Sum>i\<leftarrow>[0..<length totals].
               (if totals ! i > shift_max q ! (i mod shift_per_day q)
                then totals ! i - shift_max q ! (i mod shift_per_day q)
                else if totals ! i < shift_min q ! (i mod shift_per_day q)
                then shift_min q ! (i mod shift_per_day q) - totals ! i
                else 0))"
    unfolding count_teachers_per_shift_violations_def by (simp add: Let_def)
next
  assume a: "p = TeacherSchedulingProblem penalty \<and> n = 7 * weeks p * shift_per_day p
      \<and> length schedule = len p
      \<and> headcounts = map (\<lambda>i. \<Sum>k\<leftarrow>[0..<length (teachers p)]. schedule ! (k * n + i)) [0..<n]"
  then have p: "p = TeacherSchedulingProblem penalty" and n: "n = 21"
    and l: "length schedule = 168"
    by (simp_all add: TSP_fields TSP_counts)
  have h: "headcounts = map (\<lambda>i. \<Sum>k\<leftarrow>[0..<8]. schedule ! (k * 21 + i)) [0..<21]"
    using a by (simp only: p n TSP_counts)
  show "\<exists>sd. get_teacher_shifts p schedule = Inr sd
         \<and> count_teachers_per_shift_violations p sd =
             Inr (headcounts,
                  \<Sum>i\<leftarrow>[0..<n].
                    (if headcounts ! i > shift_max p ! (i mod shift_per_day p)
                     then headcounts ! i - shift_max p ! (i mod shift_per_day p)
                     else if headcounts ! i < shift_min p ! (i mod shift_per_day p)
                     then shift_min p ! (i mod shift_per_day p) - headcounts ! i
                     else 0))"
    unfolding p n TSP_fields
    using TSP_decode [of penalty schedule] TSP_capacity_roster [OF l h, of penalty]
    by blast
qed

theorem teachers_per_shift_violations_headcounts_witness:
  "count_teachers_per_shift_violations (TeacherSchedulingProblem 10)
       [(''A'', [1, 1, 1, 0]), (''B'', [1, 1, 1, 0]), (''C'', [1, 1, 1, 0]), (''D'', [1, 0, 0, 0])]
     = Inr ([4, 3, 3, 0], 4)
   \<and> (\<exists>sd. get_teacher_shifts (TeacherSchedulingProblem 10) (replicate 168 1) = Inr sd
         \<and> count_teachers_per_shift_violations (TeacherSchedulingProblem 10) sd
             = Inr (replicate 21 8, 105))"
proof -
  let ?q = "TeacherSchedulingProblem 10"
  let ?d = "[(''A'', [1, 1, 1, 0]), (''B'', [1, 1, 1, 0]), (''C'', [1, 1, 1, 0]),
             (''D'', [1, 0, 0, 0::int])]"
  let ?s = "replicate 168 (1::int)"
  note t = teachers_per_shift_violations_headcounts
    [where q = ?q and d = ?d and totals = "[4, 3, 3, 0]" and p = ?q and penalty = 10 and n = 21
       and schedule = ?s and headcounts = "replicate 21 8"]
  have h1: "0 < shift_per_day ?q \<and> shift_per_day ?q \<le> length (shift_max ?q)
      \<and> shift_per_day ?q \<le> length (shift_min ?q)
      \<and> [4, 3, 3, 0] = map sum_list (zip_star (dict_values ?d))"
    by code_simp
  have v1: "(\<Sum>i\<leftarrow>[0..<length [4, 3, 3, 0::int]].
               (if [4, 3, 3, 0] ! i > shift_max ?q ! (i mod shift_per_day ?q)
                then [4, 3, 3, 0] ! i - shift_max ?q ! (i mod shift_per_day ?q)
                else if [4, 3, 3, 0] ! i < shift_min ?q ! (i mod shift_per_day ?q)
                then shift_min ?q ! (i mod shift_per_day ?q) - [4, 3, 3, 0] ! i
                else 0)) = 4"
    by code_simp
  have h2: "?q = TeacherSchedulingProblem 10 \<and> 21 = 7 * weeks ?q * shift_per_day ?q
      \<and> length ?s = len ?q
      \<and> replicate 21 8 = map (\<lambda>i. \<Sum>k\<leftarrow>[0..<length (teachers ?q)]. ?s ! (k * 21 + i)) [0..<21]"
    by code_simp
  have v2: "(\<Sum>i\<leftarrow>[0..<21].
                    (if replicate 21 (8::int) ! i > shift_max ?q ! (i mod shift_per_day ?q)
                     then replicate 21 8 ! i - shift_max ?q ! (i mod shift_per_day ?q)
                     else if replicate 21 8 ! i < shift_min ?q ! (i mod shift_per_day ?q)
                     then shift_min ?q ! (i mod shift_per_day ?q) - replicate 21 8 ! i
                     else 0)) = 105"
    by code_simp
  from t h1 have "count_teachers_per_shift_violations ?q ?d = Inr ([4, 3, 3, 0], 4)"
    unfolding v1 by blast
  moreover from t h2 have "\<exists>sd. get_teacher_shifts ?q ?s = Inr sd
         \<and> count_teachers_per_shift_violations ?q sd = Inr (replicate 21 8, 105)"
    unfolding v2 by blast
  ultimately show ?thesis by blast
qed

section \<open>Sign of the cost and non-binary rosters\<close>

lemma count_consecutive_nonneg: "0 \<le> count_consecutive_shift_violations d"
  unfolding count_consecutive_shift_violations_def consecutive_teachers_loop_sum
  by (simp, rule sum_list_nonneg) auto

lemma TSP_weekly_nonneg:
  "count_shifts_per_week_violations (TeacherSchedulingProblem pen) d = Inr (wl, w) \<Longrightarrow> 0 \<le> w"
  unfolding TSP_weekly by (auto intro!: sum_list_nonneg)

lemma TSP_capacity_nonneg:
  "count_teachers_per_shift_violations (TeacherSchedulingProblem pen) d = Inr (hl, t) \<Longrightarrow> 0 \<le> t"
  unfolding TSP_capacity [OF refl] by (auto intro!: sum_list_nonneg)

lemma TSP_get_cost_parts:
  assumes "length s = 168"
  shows "\<exists>h sp. 0 \<le> h \<and> 0 \<le> sp \<and> get_cost (TeacherSchedulingProblem pen) s = Inr (pen * h + sp)"
proof -
  let ?q = "TeacherSchedulingProblem pen"
  let ?d = "map (\<lambda>k. (teachers ?q ! k, slice s (k * 21) (k * 21 + 21))) [0..<8]"
  note wk = TSP_weekly_roster [OF assms, of pen]
  note cap = TSP_capacity_roster [OF assms refl, of pen]
  note prefs = TSP_preference [OF assms, of pen]
  note cost = TSP_get_cost [OF assms refl wk cap prefs]
  have "0 \<le> count_consecutive_shift_violations ?d" by (rule count_consecutive_nonneg)
  moreover note TSP_weekly_nonneg [OF wk] TSP_capacity_nonneg [OF cap]
  ultimately have h: "0 \<le> count_consecutive_shift_violations ?d
      + (\<Sum>k\<leftarrow>[0..<8]. (if (\<Sum>j\<leftarrow>[0..<21]. s ! (k * 21 + j)) > 5
                          then (\<Sum>j\<leftarrow>[0..<21]. s ! (k * 21 + j)) - 5 else 0))
      + (\<Sum>i\<leftarrow>[0..<21].
             (if map (\<lambda>i. \<Sum>k\<leftarrow>[0..<8]. s ! (k * 21 + i)) [0..<21] ! i > [3, 4, 2] ! (i mod 3)
              then map (\<lambda>i. \<Sum>k\<leftarrow>[0..<8]. s ! (k * 21 + i)) [0..<21] ! i - [3, 4, 2] ! (i mod 3)
              else if map (\<lambda>i. \<Sum>k\<leftarrow>[0..<8]. s ! (k * 21 + i)) [0..<21] ! i < [2, 2, 1] ! (i mod 3)
              then [2, 2, 1] ! (i mod 3) - map (\<lambda>i. \<Sum>k\<leftarrow>[0..<8]. s ! (k * 21 + i)) [0..<21] ! i
              else 0))"
    by linarith
  have sp: "0 \<le> (\<Sum>k\<leftarrow>[0..<8]. int (length (filter
            (\<lambda>i. shift_preference ?q ! k ! (i mod 3) = 0 \<and> s ! (k * 21 + i) = 1) [0..<21])))"
    by (rule sum_list_nonneg) auto
  from h sp cost show ?thesis by blast
qed

text \<open>
  C9, as stated, fails: the constructor takes any penalty factor, and with the factor
  \<open>-1\<close> the all-zero roster (35 unmet minimum headcounts) costs \<open>-35\<close>.
\<close>

theorem get_cost_nonnegative_counterexample:
  "length (replicate 168 (0::int)) = len (TeacherSchedulingProblem (- 1))
   \<and> set (replicate 168 (0::int)) \<subseteq> {0, 1}
   \<and> get_cost (TeacherSchedulingProblem (- 1)) (replicate 168 0) = Inr (- 35)
   \<and> (- 35 :: int) < 0"
proof -
  have "get_cost (TeacherSchedulingProblem (- 1)) (replicate 168 0) = Inr (- 35)"
    by code_simp
  then show ?thesis by (simp add: TSP_counts)
qed

text \<open>
  C9, amended. When the hard-constraint penalty is not negative, \<^verbatim>\<open>get_cost\<close> returns a
  non-negative value for every roster of length \<^verbatim>\<open>__len__()\<close> whose values are all 0 or 1,
  and the value depends on the roster's content only: a roster with the same length and
  the same entries has the same cost.
\<close>

theorem get_cost_nonnegative:
  assumes "p = TeacherSchedulingProblem penalty"
    and "0 \<le> penalty"
    and "length schedule = len p"
    and "set schedule \<subseteq> {0, 1}"
  shows "(\<exists>c. get_cost p schedule = Inr c \<and> 0 \<le> c)
    \<and> (\<forall>other. length other = length schedule
           \<and> (\<forall>i<length schedule. other ! i = schedule ! i)
         \<longrightarrow> get_cost p other = get_cost p schedule)"
proof
  have l: "length schedule = 168" using assms(1,3) by (simp add: TSP_counts)
  from TSP_get_cost_parts [OF l, of penalty]
  obtain h sp where "0 \<le> h" "0 \<le> sp" and c: "get_cost p schedule = Inr (penalty * h + sp)"
    unfolding assms(1) by blast
  then have "0 \<le> penalty * h + sp" using assms(2) by simp
  with c show "\<exists>c. get_cost p schedule = Inr c \<and> 0 \<le> c" by blast
next
  show "\<forall>other. length other = length schedule
           \<and> (\<forall>i<length schedule. other ! i = schedule ! i)
         \<longrightarrow> get_cost p other = get_cost p schedule"
  proof (intro allI impI)
    fix other
    assume "length other = length schedule \<and> (\<forall>i<length schedule. other ! i = schedule ! i)"
    then have "other = schedule" by (intro nth_equalityI) simp_all
    then show "get_cost p other = get_cost p schedule" by simp
  qed
qed

theorem get_cost_nonnegative_witness:
  "(0::int) \<le> 10
   \<and> length (replicate 168 (1::int)) = len (TeacherSchedulingProblem 10)
   \<and> set (replicate 168 (1::int)) \<subseteq> {0, 1}
   \<and> (\<exists>c. get_cost (TeacherSchedulingProblem 10) (replicate 168 1) = Inr c \<and> 0 \<le> c)
   \<and> get_cost (TeacherSchedulingProblem 10) (map (\<lambda>i. 1) [0..<168])
       = get_cost (TeacherSchedulingProblem 10) (replicate 168 1)"
proof -
  have h2: "(0::int) \<le> 10" by simp
  have h3: "length (replicate 168 (1::int)) = len (TeacherSchedulingProblem 10)"
    by (simp add: TSP_counts)
  have h4: "set (replicate 168 (1::int)) \<subseteq> {0, 1}" by simp
  note t = get_cost_nonnegative [OF refl h2 h3 h4]
  have same: "length (map (\<lambda>i. 1::int) [0..<168]) = length (replicate 168 (1::int))
      \<and> (\<forall>i<length (replicate 168 (1::int)).
            map (\<lambda>i. 1::int) [0..<168] ! i = replicate 168 (1::int) ! i)"
    by simp
  from t same have "get_cost (TeacherSchedulingProblem 10) (map (\<lambda>i. 1) [0..<168])
       = get_cost (TeacherSchedulingProblem 10) (replicate 168 1)"
    by blast
  with t h2 h3 h4 show ?thesis by blast
qed

text \<open>
  C10. \<^verbatim>\<open>get_cost\<close> checks the length only. A roster of the right length is accepted
  whatever its entries are, and the entries enter the weekly sums and the headcounts as
  they are: the weekly list holds each worker's plain sum of entries, the headcount list
  the plain sum over the workers at each position, and the two counts are computed from
  these sums.
\<close>

theorem get_cost_accepts_non_binary_entries:
  assumes "p = TeacherSchedulingProblem penalty"
    and "n = 7 * weeks p * shift_per_day p"
    and "length schedule = len p"
    and "weekly = map (\<lambda>k. \<Sum>j\<leftarrow>[0..<n]. schedule ! (k * n + j)) [0..<length (teachers p)]"
    and "headcounts = map (\<lambda>i. \<Sum>k\<leftarrow>[0..<length (teachers p)]. schedule ! (k * n + i)) [0..<n]"
  shows "\<exists>d c. get_teacher_shifts p schedule = Inr d
    \<and> count_shifts_per_week_violations p d =
        Inr (weekly,
             \<Sum>k\<leftarrow>[0..<length (teachers p)].
               (if weekly ! k > max_shifts_per_week p
                then weekly ! k - max_shifts_per_week p else 0))
    \<and> count_teachers_per_shift_violations p d =
        Inr (headcounts,
             \<Sum>i\<leftarrow>[0..<n].
               (if headcounts ! i > shift_max p ! (i mod shift_per_day p)
                then headcounts ! i - shift_max p ! (i mod shift_per_day p)
                else if headcounts ! i < shift_min p ! (i mod shift_per_day p)
                then shift_min p ! (i mod shift_per_day p) - headcounts ! i
                else 0))
    \<and> get_cost p schedule = Inr c"
proof -
  have p: "p = TeacherSchedulingProblem penalty" by (rule assms(1))
  have n: "n = 21" using assms(2) by (simp add: p TSP_fields)
  have l: "length schedule = 168" using assms(3) by (simp add: p TSP_counts)
  have w: "weekly = map (\<lambda>k. \<Sum>j\<leftarrow>[0..<21]. schedule ! (k * 21 + j)) [0..<8]"
    using assms(4) by (simp only: p n TSP_counts)
  have h: "headcounts = map (\<lambda>i. \<Sum>k\<leftarrow>[0..<8]. schedule ! (k * 21 + i)) [0..<21]"
    using assms(5) by (simp only: p n TSP_counts)
  have wsum: "(\<Sum>k\<leftarrow>[0..<8]. (if weekly ! k > 5 then weekly ! k - 5 else 0))
      = (\<Sum>k\<leftarrow>[0..<8]. (if (\<Sum>j\<leftarrow>[0..<21]. schedule ! (k * 21 + j)) > 5
                          then (\<Sum>j\<leftarrow>[0..<21]. schedule ! (k * 21 + j)) - 5 else 0))"
    by (rule sum_list_map_cong) (simp add: w)
  have wk: "count_shifts_per_week_violations (TeacherSchedulingProblem penalty)
           (map (\<lambda>k. (teachers (TeacherSchedulingProblem penalty) ! k,
                      slice schedule (k * 21) (k * 21 + 21))) [0..<8]) =
      Inr (weekly, \<Sum>k\<leftarrow>[0..<8]. (if weekly ! k > 5 then weekly ! k - 5 else 0))"
    unfolding wsum using TSP_weekly_roster [OF l, of penalty] by (simp only: w)
  note cap = TSP_capacity_roster [OF l h, of penalty]
  from TSP_get_cost_parts [OF l, of penalty]
  obtain c where c: "get_cost (TeacherSchedulingProblem penalty) schedule = Inr c" by blast
  show ?thesis
    unfolding p n TSP_counts(1)
    unfolding TSP_fields
    using TSP_decode [of penalty schedule] wk cap c by blast
qed

theorem get_cost_accepts_non_binary_entries_witness:
  "length (replicate 168 (2::int)) = len (TeacherSchedulingProblem 10)
   \<and> (\<exists>d. get_teacher_shifts (TeacherSchedulingProblem 10) (replicate 168 2) = Inr d
        \<and> count_shifts_per_week_violations (TeacherSchedulingProblem 10) d
            = Inr (replicate 8 42, 296)
        \<and> count_teachers_per_shift_violations (TeacherSchedulingProblem 10) d
            = Inr (replicate 21 16, 273))
   \<and> get_cost (TeacherSchedulingProblem 10) (replicate 168 2) = Inr 5690
   \<and> length (replicate 168 (- 1 :: int)) = len (TeacherSchedulingProblem 10)
   \<and> (\<exists>d. get_teacher_shifts (TeacherSchedulingProblem 10) (replicate 168 (- 1)) = Inr d
        \<and> count_shifts_per_week_violations (TeacherSchedulingProblem 10) d
            = Inr (replicate 8 (- 21), 0)
        \<and> count_teachers_per_shift_violations (TeacherSchedulingProblem 10) d
            = Inr (replicate 21 (- 8), 203))
   \<and> get_cost (TeacherSchedulingProblem 10) (replicate 168 (- 1)) = Inr 2030"
proof -
  let ?q = "TeacherSchedulingProblem 10"
  have n: "21 = 7 * weeks ?q * shift_per_day ?q" by (simp add: TSP_fields)
  have l2: "length (replicate 168 (2::int)) = len ?q"
    and l1: "length (replicate 168 (- 1 :: int)) = len ?q"
    by (simp_all add: TSP_counts)
  have w2: "replicate 8 42 = map (\<lambda>k. \<Sum>j\<leftarrow>[0..<21]. replicate 168 (2::int) ! (k * 21 + j))
              [0..<length (teachers ?q)]"
    and h2: "replicate 21 16 = map (\<lambda>i. \<Sum>k\<leftarrow>[0..<length (teachers ?q)].
                replicate 168 (2::int) ! (k * 21 + i)) [0..<21]"
    and w1: "replicate 8 (- 21) = map (\<lambda>k. \<Sum>j\<leftarrow>[0..<21]. replicate 168 (- 1 :: int) ! (k * 21 + j))
              [0..<length (teachers ?q)]"
    and h1: "replicate 21 (- 8) = map (\<lambda>i. \<Sum>k\<leftarrow>[0..<length (teachers ?q)].
                replicate 168 (- 1 :: int) ! (k * 21 + i)) [0..<21]"
    by code_simp+
  have v2: "(\<Sum>k\<leftarrow>[0..<length (teachers ?q)].
               (if replicate 8 (42::int) ! k > max_shifts_per_week ?q
                then replicate 8 42 ! k - max_shifts_per_week ?q else 0)) = 296"
    and u2: "(\<Sum>i\<leftarrow>[0..<21].
               (if replicate 21 (16::int) ! i > shift_max ?q ! (i mod shift_per_day ?q)
                then replicate 21 16 ! i - shift_max ?q ! (i mod shift_per_day ?q)
                else if replicate 21 16 ! i < shift_min ?q ! (i mod shift_per_day ?q)
                then shift_min ?q ! (i mod shift_per_day ?q) - replicate 21 16 ! i
                else 0)) = 273"
    and v1: "(\<Sum>k\<leftarrow>[0..<length (teachers ?q)].
               (if replicate 8 (- 21 :: int) ! k > max_shifts_per_week ?q
                then replicate 8 (- 21) ! k - max_shifts_per_week ?q else 0)) = 0"
    and u1: "(\<Sum>i\<leftarrow>[0..<21].
               (if replicate 21 (- 8 :: int) ! i > shift_max ?q ! (i mod shift_per_day ?q)
                then replicate 21 (- 8) ! i - shift_max ?q ! (i mod shift_per_day ?q)
                else if replicate 21 (- 8) ! i < shift_min ?q ! (i mod shift_per_day ?q)
                then shift_min ?q ! (i mod shift_per_day ?q) - replicate 21 (- 8) ! i
                else 0)) = 203"
    by code_simp+
  have c2: "get_cost ?q (replicate 168 2) = Inr 5690"
    and c1: "get_cost ?q (replicate 168 (- 1)) = Inr 2030"
    by code_simp+
  from get_cost_accepts_non_binary_entries [OF refl n l2 w2 h2]
  have a: "\<exists>d. get_teacher_shifts ?q (replicate 168 2) = Inr d
        \<and> count_shifts_per_week_violations ?q d = Inr (replicate 8 42, 296)
        \<and> count_teachers_per_shift_violations ?q d = Inr (replicate 21 16, 273)"
    unfolding v2 u2 by blast
  from get_cost_accepts_non_binary_entries [OF refl n l1 w1 h1]
  have b: "\<exists>d. get_teacher_shifts ?q (replicate 168 (- 1)) = Inr d
        \<and> count_shifts_per_week_violations ?q d = Inr (replicate 8 (- 21), 0)
        \<and> count_teachers_per_shift_violations ?q d = Inr (replicate 21 (- 8), 203)"
    unfolding v1 u1 by blast
  from a b c1 c2 l1 l2 show ?thesis by blast
qed

end
